theory Spec2Isabelle
  imports Complex_Main "HOL-Library.Log_Nat"
begin

section \<open>Python values\<close>

subsection \<open>Errors\<close>

text \<open>
  The exceptions the two example apps can raise: a parameter set outside its bounds
  (\<open>ValueError\<close>), a true division by zero, a float result that does not fit a double
  (\<open>OverflowError\<close>), an index past the end of a list, and bytes in which PIL finds no
  image (\<open>UnidentifiedImageError\<close>, from \<^verbatim>\<open>Image.open\<close>).
\<close>

datatype error =
  ValueError | ZeroDivisionError | OverflowError | IndexError | UnidentifiedImageError

text \<open>\<^verbatim>\<open>xs[i]\<close>: a negative index counts from the end, an index out of range raises.\<close>

definition py_index :: "'x list \<Rightarrow> int \<Rightarrow> error + 'x" where
  "py_index xs i =
     (if 0 \<le> i \<and> i < int (length xs) then Inr (xs ! nat i)
      else if i < 0 \<and> - int (length xs) \<le> i then Inr (xs ! nat (int (length xs) + i))
      else Inl IndexError)"

text \<open>\<^verbatim>\<open>range(n)\<close> is empty for \<open>n \<le> 0\<close>.\<close>

definition py_range :: "int \<Rightarrow> nat list" where
  "py_range n = [0..<nat n]"

subsection \<open>Floats\<close>

text \<open>
  A Python float is an IEEE 754 double. A finite double is a rational number, and each
  arithmetic operation returns the exact result rounded to the nearest double, ties to
  the even significand. \<open>fl\<close> is that rounding: \<open>ilog2 x\<close> is the binary exponent of \<open>x\<close>,
  the significand has 53 bits, and below \<open>2 powi (- 1022)\<close> the spacing stays
  \<open>2 powi (- 1074)\<close> (subnormal numbers). A rounded result of magnitude \<open>2 ^ 1024\<close> or
  more does not fit.
\<close>

definition rne :: "rat \<Rightarrow> int" where
  "rne x = (let f = \<lfloor>x\<rfloor>; r = x - of_int f
            in if r < 1 / 2 then f else if 1 / 2 < r then f + 1
               else if even f then f else f + 1)"

definition ilog2 :: "rat \<Rightarrow> int" where
  "ilog2 x = (let (a, b) = quotient_of x; d = bitlen a - bitlen b
              in if 2 powi d \<le> x then d else d - 1)"

definition fl :: "rat \<Rightarrow> rat" where
  "fl x = (if x = 0 then 0
           else let q = max (ilog2 \<bar>x\<bar>) (- 1022) - 52
                in of_int (rne (x / 2 powi q)) * 2 powi q)"

datatype float = Finite rat | Inf

text \<open>
  \<^verbatim>\<open>a / b\<close> on two integers: the quotient correctly rounded, \<open>ZeroDivisionError\<close> for a zero
  divisor, \<open>OverflowError\<close> when the result is too large for a float.
\<close>

definition int_truediv :: "int \<Rightarrow> int \<Rightarrow> error + rat" where
  "int_truediv a b =
     (if b = 0 then Inl ZeroDivisionError
      else let y = fl (of_int a / of_int b)
           in if 2 ^ 1024 \<le> \<bar>y\<bar> then Inl OverflowError else Inr y)"

text \<open>\<^verbatim>\<open>a * b\<close> on two finite floats; an overflow gives an infinity.\<close>

definition float_mul :: "rat \<Rightarrow> rat \<Rightarrow> float" where
  "float_mul a b = (let y = fl (a * b) in if 2 ^ 1024 \<le> \<bar>y\<bar> then Inf else Finite y)"

text \<open>\<^verbatim>\<open>int(x)\<close> truncates towards zero and raises \<open>OverflowError\<close> on an infinity.\<close>

definition py_int :: "float \<Rightarrow> error + int" where
  "py_int x = (case x of Inf \<Rightarrow> Inl OverflowError
               | Finite y \<Rightarrow> Inr (if 0 \<le> y then \<lfloor>y\<rfloor> else \<lceil>y\<rceil>))"

section \<open>examples/async\_tasks.py\<close>

subsection \<open>ProgressExtMod\<close>

text \<open>
  \<^verbatim>\<open>completed = param.Integer(default=0)\<close>,
  \<^verbatim>\<open>bar_color = param.String(default="info")\<close>,
  \<^verbatim>\<open>num_tasks = param.Integer(default=100, bounds=(1, None))\<close>.
  Python integers are unbounded, so both counters are \<open>int\<close>.
\<close>

record ProgressExtMod =
  completed :: int
  bar_color :: string
  num_tasks :: int

definition ProgressExtMod_init :: ProgressExtMod where
  "ProgressExtMod_init = \<lparr>completed = 0, bar_color = ''info'', num_tasks = 100\<rparr>"

text \<open>
  Assigning \<open>num_tasks\<close> goes through the parameter's bounds \<open>(1, None)\<close>: a value below
  1 raises \<open>ValueError\<close> and leaves the object as it was.
\<close>

definition set_num_tasks :: "int \<Rightarrow> ProgressExtMod \<Rightarrow> error + ProgressExtMod" where
  "set_num_tasks v p = (if v < 1 then Inl ValueError else Inr (p\<lparr>num_tasks := v\<rparr>))"

text \<open>\<^verbatim>\<open>def reset(self): self.completed = 0\<close>\<close>

definition reset :: "ProgressExtMod \<Rightarrow> ProgressExtMod" where
  "reset p = p\<lparr>completed := 0\<rparr>"

text \<open>
  \<^verbatim>\<open>
  @property
  def value(self) -> int:
      return int(100 * (self.completed / self.num_tasks))
  \<close>
  The division is Python's true division of two integers, the product is a float
  product (the integer 100 is the float 100.0), and \<open>int\<close> truncates. The name \<open>value\<close> is
  taken in Isabelle, hence the prefix.
\<close>

definition ProgressExtMod_value :: "ProgressExtMod \<Rightarrow> error + int" where
  "ProgressExtMod_value p =
     (case int_truediv (completed p) (num_tasks p) of
        Inl e \<Rightarrow> Inl e
      | Inr d \<Rightarrow> py_int (float_mul 100 d))"

subsection \<open>The application state\<close>

text \<open>
  The module holds one \<open>progress\<close> object and one \<open>executor\<close>; an \<open>AsyncComponent\<close> has
  the parameter \<open>result\<close>. A future is named by the number of its submission. The
  executor's queue and the callbacks registered on the IOLoop are lists in the order of
  the calls that filled them.
\<close>

datatype task = blocking_task

datatype callback = update

record world =
  progress :: ProgressExtMod
  result :: int
  submitted :: "(nat \<times> task) list"
  loop_futures :: "(nat \<times> callback) list"

text \<open>\<^verbatim>\<open>future = executor.submit(fn)\<close>: the task joins the queue, the future is its ticket.\<close>

definition executor_submit :: "task \<Rightarrow> world \<Rightarrow> nat \<times> world" where
  "executor_submit t w =
     (let future = length (submitted w)
      in (future, w\<lparr>submitted := submitted w @ [(future, t)]\<rparr>))"

text \<open>\<^verbatim>\<open>loop.add_future(future, callback)\<close>\<close>

definition add_future :: "nat \<Rightarrow> callback \<Rightarrow> world \<Rightarrow> world" where
  "add_future future cb w = w\<lparr>loop_futures := loop_futures w @ [(future, cb)]\<rparr>"

text \<open>
  \<^verbatim>\<open>
  def do_calc(self, num_tasks=10):
      num_tasks = 20
      progress.num_tasks = num_tasks
      loop = IOLoop.current()
      for _ in range(num_tasks):
          future = executor.submit(self._blocking_task)
          loop.add_future(future, self._update)
  \<close>
  The loop body is \<open>do_calc_step\<close>; the loop is a fold over the range.
\<close>

definition do_calc_step :: "nat \<Rightarrow> world \<Rightarrow> world" where
  "do_calc_step _ w =
     (let (future, w1) = executor_submit blocking_task w
      in add_future future update w1)"

definition do_calc :: "int \<Rightarrow> world \<Rightarrow> error + world" where
  "do_calc num_tasks_arg w =
     (let num_tasks' = 20
      in case set_num_tasks num_tasks' (progress w) of
           Inl e \<Rightarrow> Inl e
         | Inr p \<Rightarrow> Inr (fold do_calc_step (py_range num_tasks') (w\<lparr>progress := p\<rparr>)))"

subsection \<open>The increment context manager\<close>

text \<open>
  \<^verbatim>\<open>
  @contextmanager
  def increment(self):
      self.completed += 1
      yield
      if self.completed == self.num_tasks:
          self.reset()
  \<close>
  The body of the \<open>with\<close> statement (or the decorated function) runs at the \<open>yield\<close>. It is
  a state transformer that may raise: \<open>Some e\<close> is the exception, and the state it leaves
  is kept either way. When the body raises, the exception is thrown into the generator at
  the \<open>yield\<close>, nothing catches it there, and the statements after the \<open>yield\<close> do not run.
\<close>

type_synonym body = "world \<Rightarrow> error option \<times> world"

definition increment_enter :: "ProgressExtMod \<Rightarrow> ProgressExtMod" where
  "increment_enter p = p\<lparr>completed := completed p + 1\<rparr>"

definition increment_exit :: "ProgressExtMod \<Rightarrow> ProgressExtMod" where
  "increment_exit p = (if completed p = num_tasks p then reset p else p)"

definition increment :: "body \<Rightarrow> world \<Rightarrow> error option \<times> world" where
  "increment b w =
     (let w1 = w\<lparr>progress := increment_enter (progress w)\<rparr>
      in case b w1 of
           (Some e, w2) \<Rightarrow> (Some e, w2)
         | (None, w2) \<Rightarrow> (None, w2\<lparr>progress := increment_exit (progress w2)\<rparr>))"

text \<open>
  \<^verbatim>\<open>
  @progress.increment()
  def _update(self, future):
      number = future.result()
      with unlocked():
          self.result += number

  @staticmethod
  def _blocking_task():
      time.sleep(np.random.randint(1, 2))
      return 5
  \<close>
  The callback runs once its future is done, so \<open>future.result()\<close> is what the task
  returned.
\<close>

definition task_result :: "task \<Rightarrow> int" where
  "task_result t = (case t of blocking_task \<Rightarrow> 5)"

definition update_body :: "task \<Rightarrow> body" where
  "update_body t w = (let number = task_result t in (None, w\<lparr>result := result w + number\<rparr>))"

definition update_cb :: "task \<Rightarrow> world \<Rightarrow> error option \<times> world" where
  "update_cb t = increment (update_body t)"

text \<open>A sequence of calls of \<open>increment\<close>, one body each; a raised exception ends the run.\<close>

fun increments :: "body list \<Rightarrow> world \<Rightarrow> error option \<times> world" where
  "increments [] w = (None, w)"
| "increments (b # bs) w =
     (case increment b w of
        (Some e, w') \<Rightarrow> (Some e, w')
      | (None, w') \<Rightarrow> increments bs w')"

text \<open>
  The module right after import, with \<open>progress.num_tasks\<close> set to \<open>n\<close>: nothing completed,
  nothing submitted, \<open>result\<close> at its default 0.
\<close>

definition fresh_world :: "int \<Rightarrow> world" where
  "fresh_world n =
     \<lparr>progress = \<lparr>completed = 0, bar_color = ''info'', num_tasks = n\<rparr>, result = 0,
      submitted = [], loop_futures = []\<rparr>"

section \<open>examples/image\_classifier.py\<close>

subsection \<open>External libraries\<close>

text \<open>
  The app calls into PIL, numpy, Keras and the Keras model zoo. What these compute is not
  part of the repository: each function is a parameter, and the types of images (\<open>'i\<close>),
  arrays (\<open>'a\<close>), models (\<open>'m\<close>) and raw network outputs (\<open>'p\<close>) are type variables. An
  uploaded file is a byte string, whatever the user picked: \<^verbatim>\<open>Image.open\<close> raises on bytes
  that are not an image, so it returns an image or an error. A decoded prediction is the
  triple \<open>(id, prediction, probability)\<close>; the probability is a finite float, that is, a
  rational.
\<close>

type_synonym bytes = "nat list"

type_synonym prediction = "string \<times> string \<times> rat"

datatype keras_module = densenet | inception_v3 | mobilenet_v2 | nasnet | resnet | vgg19 | xception

datatype keras_class =
  DenseNet121 | InceptionV3 | MobileNetV2 | NASNetMobile | NASNetLarge | ResNet50 | VGG19
  | Xception

record ('i, 'a, 'm, 'p) libs =
  image_resize :: "'i \<Rightarrow> int \<times> int \<Rightarrow> 'i"
  image_open :: "bytes \<Rightarrow> error + 'i"
  np_expand_dims :: "'a \<Rightarrow> int \<Rightarrow> 'a"
  model_predict :: "'m \<Rightarrow> 'a \<Rightarrow> 'p"
  tf_application :: "keras_class \<Rightarrow> string \<Rightarrow> 'm"
  tf_preprocess_input :: "keras_module \<Rightarrow> 'a \<Rightarrow> 'a"
  tf_decode_predictions :: "keras_module \<Rightarrow> 'p \<Rightarrow> prediction list list"
  tf_img_to_array :: "'i \<Rightarrow> 'a"
  tf_load_img :: "string \<Rightarrow> int \<times> int \<Rightarrow> 'i"

text \<open>
  The order in which the code calls out is part of what it does, so every function below
  returns, next to its value, the list of the calls it made, oldest first. An assignment
  to the parameter \<open>top_predictions\<close> is in that list too, with the value assigned: the
  views that depend on the parameter are told of each.
\<close>

datatype call =
  Report_progress string int
  | Image_open
  | Get_model string
  | Image_resize "int \<times> int"
  | Img_to_array
  | Expand_dims int
  | Preprocess_input
  | Model_predict
  | Decode_predictions
  | Assign_top_predictions "prediction list option"

fun is_report :: "call \<Rightarrow> bool" where
  "is_report (Report_progress _ _) = True"
| "is_report _ = False"

fun uses_model :: "call \<Rightarrow> bool" where
  "uses_model (Get_model _) = True"
| "uses_model Model_predict = True"
| "uses_model _ = False"

subsection \<open>KerasApplication\<close>

text \<open>
  \<^verbatim>\<open>
  class KerasApplication(NamedTuple):
      name: str
      keras_application: Callable
      preprocess_input_func: Callable
      decode_predictions_func: Callable
      load_img_func: Callable
      img_to_array_func: Callable
      input_shape: Tuple[int, int] = (224, 224)
      url: str = "https://keras.io/applications/"
  \<close>
  \<open>keras_application\<close> is only ever called with the keyword \<open>weights\<close>, which is its
  argument here.
\<close>

record ('i, 'a, 'm, 'p) KerasApplication =
  name :: string
  keras_application :: "string \<Rightarrow> 'm"
  preprocess_input_func :: "'a \<Rightarrow> 'a"
  decode_predictions_func :: "'p \<Rightarrow> prediction list list"
  load_img_func :: "string \<Rightarrow> int \<times> int \<Rightarrow> 'i"
  img_to_array_func :: "'i \<Rightarrow> 'a"
  input_shape :: "int \<times> int"
  url :: string

text \<open>\<^verbatim>\<open>return self.load_img_func(image_path, target_size=self.input_shape)\<close>\<close>

definition load_image ::
  "('i, 'a, 'm, 'p) KerasApplication \<Rightarrow> string \<Rightarrow> 'i" where
  "load_image self img_path = load_img_func self img_path (input_shape self)"

text \<open>\<^verbatim>\<open>return image.resize(self.input_shape)\<close>\<close>

definition to_input_shape ::
  "('i, 'a, 'm, 'p) libs \<Rightarrow> ('i, 'a, 'm, 'p) KerasApplication \<Rightarrow> 'i \<Rightarrow> 'i \<times> call list" where
  "to_input_shape L self img =
     (image_resize L img (input_shape self), [Image_resize (input_shape self)])"

text \<open>
  \<^verbatim>\<open>
  @lru_cache(2)
  def get_model(self) -> object:
      return self.keras_application(weights="imagenet")
  \<close>
  The cache returns an earlier result of the same call. \<open>keras_application\<close> is a function
  here, so a cached model and a fresh one are the same value and the cache needs no state.
\<close>

definition get_model :: "('i, 'a, 'm, 'p) KerasApplication \<Rightarrow> 'm \<times> call list" where
  "get_model self = (keras_application self ''imagenet'', [Get_model ''imagenet''])"

text \<open>
  \<^verbatim>\<open>
  def preprocess_input(self, image):
      image = self.to_input_shape(image)
      image = self.img_to_array_func(image)
      image = np.expand_dims(image, axis=0)
      image = self.preprocess_input_func(image)
      return image
  \<close>
\<close>

definition preprocess_input ::
  "('i, 'a, 'm, 'p) libs \<Rightarrow> ('i, 'a, 'm, 'p) KerasApplication \<Rightarrow> 'i \<Rightarrow> 'a \<times> call list" where
  "preprocess_input L self img =
     (let (img1, c1) = to_input_shape L self img;
          (img2, c2) = (img_to_array_func self img1, [Img_to_array]);
          (img3, c3) = (np_expand_dims L img2 0, [Expand_dims 0]);
          (img4, c4) = (preprocess_input_func self img3, [Preprocess_input])
      in (img4, c1 @ c2 @ c3 @ c4))"

text \<open>The two formatted progress messages; \<open>CHR 39\<close> is the single quote.\<close>

definition loading_message :: "string \<Rightarrow> string" where
  "loading_message n =
     ''Loading '' @ n @ '' model ... (The first time this is done it may take several minutes)''"

definition classifying_message :: "string \<Rightarrow> string" where
  "classifying_message n = ''Classifying image with '' @ [CHR 39] @ n @ [CHR 39] @ ''... ''"

text \<open>
  \<^verbatim>\<open>
  def get_top_predictions(self, image=None, report_progress_func=print):
      report_progress_func(f"Loading {self.name} model ... (...)", 10)
      model = self.get_model()
      report_progress_func("Processing image ... ", 67)
      image = self.preprocess_input(image)
      report_progress_func(f"Classifying image with '{self.name}'... ", 85)
      predictions = model.predict(image)
      top_predictions = self.decode_predictions_func(predictions)
      report_progress_func("", 0)
      return top_predictions[0]
  \<close>
  \<open>report_progress_func\<close> is a callback into the caller's state \<open>'s\<close>: it takes the message,
  the value and the state, and returns the new state. The result is the final state with
  the calls made, and what the function returns or raises.
\<close>

definition get_top_predictions ::
  "('i, 'a, 'm, 'p) libs \<Rightarrow> ('i, 'a, 'm, 'p) KerasApplication \<Rightarrow> 'i
     \<Rightarrow> (string \<Rightarrow> int \<Rightarrow> 's \<Rightarrow> 's) \<Rightarrow> 's \<Rightarrow> ('s \<times> call list) \<times> (error + prediction list)" where
  "get_top_predictions L self img report_progress_func s0 =
     (let m1 = loading_message (name self);
          s1 = report_progress_func m1 10 s0;
          (model, c1) = get_model self;
          m2 = ''Processing image ... '';
          s2 = report_progress_func m2 67 s1;
          (img', c2) = preprocess_input L self img;
          m3 = classifying_message (name self);
          s3 = report_progress_func m3 85 s2;
          predictions = model_predict L model img';
          top_predictions = decode_predictions_func self predictions;
          s4 = report_progress_func [] 0 s3
      in ((s4, [Report_progress m1 10] @ c1 @ [Report_progress m2 67] @ c2
                @ [Report_progress m3 85, Model_predict, Decode_predictions,
                   Report_progress [] 0]),
          py_index top_predictions 0))"

subsection \<open>The predictions chart\<close>












subsection \<open>The charting library\<close>





subsection \<open>The list of applications\<close>

text \<open>
  \<^verbatim>\<open>
  DEFAULT_KERAS_APPLICATION_INDEX = 2
  KERAS_APPLICATIONS: List[KerasApplication] = []

  def config_keras_applications():
      global KERAS_APPLICATIONS
      if KERAS_APPLICATIONS:
          return
      ...
      KERAS_APPLICATIONS = [KerasApplication("DenseNet121", ...), ...]
  \<close>
  The module's global starts empty. \<open>KERAS_APPLICATIONS L\<close> is the list the function
  assigns, \<open>config_keras_applications\<close> maps the global before the call to the global
  after it. An entry that gives no \<open>input_shape\<close> has the default \<open>(224, 224)\<close>.
\<close>

definition DEFAULT_KERAS_APPLICATION_INDEX :: int where
  "DEFAULT_KERAS_APPLICATION_INDEX = 2"

definition KERAS_APPLICATIONS ::
  "('i, 'a, 'm, 'p) libs \<Rightarrow> ('i, 'a, 'm, 'p) KerasApplication list" where
  "KERAS_APPLICATIONS L =
     [\<lparr>name = ''DenseNet121'',
       keras_application = tf_application L DenseNet121,
       preprocess_input_func = tf_preprocess_input L densenet,
       decode_predictions_func = tf_decode_predictions L densenet,
       load_img_func = tf_load_img L,
       img_to_array_func = tf_img_to_array L,
       input_shape = (224, 224),
       url = ''https://keras.io/applications/#densenet''\<rparr>,
      \<lparr>name = ''InceptionV3'',
       keras_application = tf_application L InceptionV3,
       preprocess_input_func = tf_preprocess_input L inception_v3,
       decode_predictions_func = tf_decode_predictions L inception_v3,
       load_img_func = tf_load_img L,
       img_to_array_func = tf_img_to_array L,
       input_shape = (299, 299),
       url = ''https://keras.io/applications/#inceptionv3''\<rparr>,
      \<lparr>name = ''MobileNetV2'',
       keras_application = tf_application L MobileNetV2,
       preprocess_input_func = tf_preprocess_input L mobilenet_v2,
       decode_predictions_func = tf_decode_predictions L mobilenet_v2,
       load_img_func = tf_load_img L,
       img_to_array_func = tf_img_to_array L,
       input_shape = (224, 224),
       url = ''https://keras.io/applications/#mobilenet''\<rparr>,
      \<lparr>name = ''NASNetMobile'',
       keras_application = tf_application L NASNetMobile,
       preprocess_input_func = tf_preprocess_input L nasnet,
       decode_predictions_func = tf_decode_predictions L nasnet,
       load_img_func = tf_load_img L,
       img_to_array_func = tf_img_to_array L,
       input_shape = (224, 224),
       url = ''https://keras.io/applications/#nasnet''\<rparr>,
      \<lparr>name = ''NASNetLarge'',
       keras_application = tf_application L NASNetLarge,
       preprocess_input_func = tf_preprocess_input L nasnet,
       decode_predictions_func = tf_decode_predictions L nasnet,
       load_img_func = tf_load_img L,
       img_to_array_func = tf_img_to_array L,
       input_shape = (331, 331),
       url = ''https://keras.io/applications/#nasnet''\<rparr>,
      \<lparr>name = ''ResNet50'',
       keras_application = tf_application L ResNet50,
       preprocess_input_func = tf_preprocess_input L resnet,
       decode_predictions_func = tf_decode_predictions L resnet,
       load_img_func = tf_load_img L,
       img_to_array_func = tf_img_to_array L,
       input_shape = (224, 224),
       url = ''https://keras.io/applications/#resnet''\<rparr>,
      \<lparr>name = ''VGG19'',
       keras_application = tf_application L VGG19,
       preprocess_input_func = tf_preprocess_input L vgg19,
       decode_predictions_func = tf_decode_predictions L vgg19,
       load_img_func = tf_load_img L,
       img_to_array_func = tf_img_to_array L,
       input_shape = (224, 224),
       url = ''https://keras.io/applications/#vgg19''\<rparr>,
      \<lparr>name = ''Xception'',
       keras_application = tf_application L Xception,
       preprocess_input_func = tf_preprocess_input L xception,
       decode_predictions_func = tf_decode_predictions L xception,
       load_img_func = tf_load_img L,
       img_to_array_func = tf_img_to_array L,
       input_shape = (299, 299),
       url = ''https://keras.io/applications/#inceptionv3''\<rparr>]"

definition config_keras_applications ::
  "('i, 'a, 'm, 'p) libs \<Rightarrow> ('i, 'a, 'm, 'p) KerasApplication list
     \<Rightarrow> ('i, 'a, 'm, 'p) KerasApplication list" where
  "config_keras_applications L g = (if g \<noteq> [] then g else KERAS_APPLICATIONS L)"

subsection \<open>ImageClassifierApp\<close>

text \<open>
  \<^verbatim>\<open>
  class ImageClassifierApp(param.Parameterized):
      model = param.ObjectSelector()
      image_file = param.FileSelector()
      top_predictions = param.ClassSelector(class_=list)
      progress_value = param.Integer()
      progress_message = param.String()
  \<close>
  \<open>model_default\<close> and \<open>model_objects\<close> are \<open>param.model.default\<close> and \<open>param.model.objects\<close>,
  the default and the choices of the selector. A parameter without a value is \<open>None\<close>.
\<close>

record ('i, 'a, 'm, 'p) ImageClassifierApp =
  model :: "('i, 'a, 'm, 'p) KerasApplication option"
  model_default :: "('i, 'a, 'm, 'p) KerasApplication option"
  model_objects :: "('i, 'a, 'm, 'p) KerasApplication list"
  image_file :: "bytes option"
  top_predictions :: "prediction list option"
  progress_value :: int
  progress_message :: string

text \<open>
  \<^verbatim>\<open>
  def report_progress(self, message="", value=0):
      self.progress_message = message
      self.progress_value = value
  \<close>
\<close>

definition report_progress ::
  "string \<Rightarrow> int \<Rightarrow> ('i, 'a, 'm, 'p) ImageClassifierApp \<Rightarrow> ('i, 'a, 'm, 'p) ImageClassifierApp" where
  "report_progress message v self = self\<lparr>progress_message := message, progress_value := v\<rparr>"

text \<open>
  Truth values: \<open>None\<close>, the empty byte string and the empty list are false. A
  \<open>KerasApplication\<close> is a tuple of eight fields, hence true, so a model is false only when
  it is \<open>None\<close>.
\<close>

definition truthy_bytes :: "bytes option \<Rightarrow> bool" where
  "truthy_bytes b = (case b of None \<Rightarrow> False | Some bs \<Rightarrow> bs \<noteq> [])"

definition truthy_list :: "'x list option \<Rightarrow> bool" where
  "truthy_list b = (case b of None \<Rightarrow> False | Some xs \<Rightarrow> xs \<noteq> [])"

text \<open>
  \<^verbatim>\<open>
  @param.depends("image_file", "model", watch=True)
  def set_top_predictions(self):
      self.top_predictions = None
      if self.image_file and self.model:
          self.report_progress("Prediction Started", 1)
          bytes_io = io.BytesIO(self.image_file)
          pil_image = Image.open(bytes_io)
          self.top_predictions = self.model.get_top_predictions(
              image=pil_image, report_progress_func=self.report_progress)
  \<close>
  The result is the object after the call with the calls made, and the exception that
  left the method, if any. Nothing is caught: when \<^verbatim>\<open>Image.open\<close> raises, the method ends
  there, after the first progress report and before any classification; when
  \<open>get_top_predictions\<close> raises, the second assignment does not happen.
\<close>

definition set_top_predictions ::
  "('i, 'a, 'm, 'p) libs \<Rightarrow> ('i, 'a, 'm, 'p) ImageClassifierApp
     \<Rightarrow> (('i, 'a, 'm, 'p) ImageClassifierApp \<times> call list) \<times> error option" where
  "set_top_predictions L self0 =
     (let self1 = self0\<lparr>top_predictions := None\<rparr>;
          c1 = [Assign_top_predictions None]
      in case (image_file self1, model self1) of
           (Some b, Some m) \<Rightarrow>
             if b \<noteq> [] then
               (let self2 = report_progress ''Prediction Started'' 1 self1;
                    c2 = c1 @ [Report_progress ''Prediction Started'' 1, Image_open]
                in case image_open L b of
                     Inl e \<Rightarrow> ((self2, c2), Some e)
                   | Inr pil_image \<Rightarrow>
                       (case get_top_predictions L m pil_image report_progress self2 of
                          ((self3, cs), Inr tp) \<Rightarrow>
                            ((self3\<lparr>top_predictions := Some tp\<rparr>,
                              c2 @ cs @ [Assign_top_predictions (Some tp)]), None)
                        | ((self3, cs), Inl e) \<Rightarrow> ((self3, c2 @ cs), Some e)))
             else ((self1, c1), None)
         | _ \<Rightarrow> ((self1, c1), None))"

text \<open>
  \<^verbatim>\<open>
  def __init__(self, **params):
      super().__init__(**params)
      config_keras_applications()
      self.param.model.default = KERAS_APPLICATIONS[DEFAULT_KERAS_APPLICATION_INDEX]
      self.param.model.objects = KERAS_APPLICATIONS
      self.model = KERAS_APPLICATIONS[DEFAULT_KERAS_APPLICATION_INDEX]
  \<close>
  The construction without arguments, as \<open>component()\<close> does it. Its argument is the
  module's global list before the call, its result that list after it and the new object.
  The assignment to \<open>model\<close> changes the parameter, which runs the watcher
  \<open>set_top_predictions\<close>.
\<close>

definition ImageClassifierApp_init ::
  "('i, 'a, 'm, 'p) libs \<Rightarrow> ('i, 'a, 'm, 'p) KerasApplication list
     \<Rightarrow> error + ('i, 'a, 'm, 'p) KerasApplication list \<times> ('i, 'a, 'm, 'p) ImageClassifierApp" where
  "ImageClassifierApp_init L g0 =
     (let self0 = \<lparr>model = None, model_default = None, model_objects = [], image_file = None,
                    top_predictions = None, progress_value = 0, progress_message = []\<rparr>;
          g = config_keras_applications L g0
      in case py_index g DEFAULT_KERAS_APPLICATION_INDEX of
           Inl e \<Rightarrow> Inl e
         | Inr d \<Rightarrow>
             (let self1 = self0\<lparr>model_default := Some d, model_objects := g\<rparr>;
                  self2 = self1\<lparr>model := Some d\<rparr>
              in case set_top_predictions L self2 of
                   ((self3, _), None) \<Rightarrow> Inr (g, self3)
                 | (_, Some e) \<Rightarrow> Inl e))"

text \<open>
  \<^verbatim>\<open>
  @param.depends("progress_value", "top_predictions")
  def predictions_view(self):
      if self.progress_value:
          return pn.Column(
              pn.pane.Markdown("## Prediction"),
              pn.widgets.Progress(value=self.progress_value, width=200),
              pn.pane.Str(self.progress_message),
              sizing_mode="stretch_width")
      if self.top_predictions:
          return pn.Column(
              pn.pane.Markdown("## Prediction"),
              self.main_prediction_view,
              pn.pane.Markdown("## Alternative Predictions"),
              self.predictions_chart_view,
              sizing_mode="stretch_width")
      return pn.pane.HTML()
  \<close>
  The widgets are data: a column holds its children and its sizing mode, a progress bar
  its value and width. The two methods are handed to the column as they are, not called.
\<close>

datatype view_method = Main_prediction_view | Predictions_chart_view

datatype viewable =
  Column "viewable list" string
  | Markdown string
  | Progress int int
  | Str string
  | HTML
  | ParamMethod view_method

definition predictions_view :: "('i, 'a, 'm, 'p) ImageClassifierApp \<Rightarrow> viewable" where
  "predictions_view self =
     (if progress_value self \<noteq> 0 then
        Column [Markdown ''## Prediction'',
                Progress (progress_value self) 200,
                Str (progress_message self)] ''stretch_width''
      else if truthy_list (top_predictions self) then
        Column [Markdown ''## Prediction'',
                ParamMethod Main_prediction_view,
                Markdown ''## Alternative Predictions'',
                ParamMethod Predictions_chart_view] ''stretch_width''
      else HTML)"

subsection \<open>A small instance\<close>

text \<open>
  Libraries small enough to run: an image is its bytes, and bytes open as an image when
  they start with the two bytes \<open>FF D8\<close> that start a JPEG file; resizing keeps the first
  bytes, the network returns its input and decoding always yields the same two
  predictions.
\<close>

definition stub_libs :: "(bytes, nat list, string, nat list) libs" where
  "stub_libs =
     \<lparr>image_resize = (\<lambda>i shape. take (nat (fst shape)) i),
      image_open = (\<lambda>b. if take 2 b = [255, 216] then Inr b else Inl UnidentifiedImageError),
      np_expand_dims = (\<lambda>a axis. a),
      model_predict = (\<lambda>m a. a),
      tf_application = (\<lambda>c weights. weights),
      tf_preprocess_input = (\<lambda>m a. a),
      tf_decode_predictions =
        (\<lambda>m p. [[(''n02123045'', ''tabby'', 7 / 10), (''n02124075'', ''Egyptian_cat'', 2 / 10)]]),
      tf_img_to_array = (\<lambda>i. i),
      tf_load_img = (\<lambda>path shape. [])\<rparr>"

definition stub_app :: "bytes option \<Rightarrow> (bytes, nat list, string, nat list) ImageClassifierApp" where
  "stub_app f =
     \<lparr>model = Some (KERAS_APPLICATIONS stub_libs ! 2),
      model_default = Some (KERAS_APPLICATIONS stub_libs ! 2),
      model_objects = KERAS_APPLICATIONS stub_libs,
      image_file = f,
      top_predictions = Some [(''n01'', ''stale'', 1)],
      progress_value = 0,
      progress_message = []\<rparr>"

section \<open>Properties of the float operations\<close>

subsection \<open>Rounding to the nearest integer, ties to even\<close>

lemma rne_of_int [simp]: "rne (of_int k) = k"
  by (simp add: rne_def)

lemma rne_error: "\<bar>of_int (rne x) - x\<bar> \<le> 1 / 2"
proof -
  have f1: "of_int \<lfloor>x\<rfloor> \<le> x" and f2: "x < of_int \<lfloor>x\<rfloor> + 1"
    by linarith+
  show ?thesis
    unfolding rne_def Let_def using f1 f2 by (simp add: abs_le_iff)
qed

lemma rne_eqI: "\<bar>x - of_int k\<bar> < 1 / 2 \<Longrightarrow> rne x = k"
proof -
  assume a: "\<bar>x - of_int k\<bar> < 1 / 2"
  have "\<bar>of_int (rne x) - (of_int k :: rat)\<bar> < 1"
    using rne_error [of x] a by linarith
  then have "\<bar>(of_int (rne x - k) :: rat)\<bar> < 1" by simp
  then have "\<bar>rne x - k\<bar> < 1"
    by (metis of_int_abs of_int_less_1_iff)
  then show ?thesis by simp
qed

lemma rne_mono: "x \<le> y \<Longrightarrow> rne x \<le> rne y"
proof -
  assume xy: "x \<le> y"
  have fm: "\<lfloor>x\<rfloor> \<le> \<lfloor>y\<rfloor>" using xy by (rule floor_mono)
  show ?thesis
  proof (cases "\<lfloor>x\<rfloor> = \<lfloor>y\<rfloor>")
    case True
    then show ?thesis using xy unfolding rne_def Let_def by auto
  next
    case False
    then have "\<lfloor>x\<rfloor> + 1 \<le> \<lfloor>y\<rfloor>" using fm by linarith
    moreover have "rne x \<le> \<lfloor>x\<rfloor> + 1" unfolding rne_def Let_def by auto
    moreover have "\<lfloor>y\<rfloor> \<le> rne y" unfolding rne_def Let_def by auto
    ultimately show ?thesis by linarith
  qed
qed

lemma rne_le_int: "x \<le> of_int k \<Longrightarrow> rne x \<le> k"
  using rne_mono [of x "of_int k"] by simp

lemma rne_ge_int: "of_int k \<le> x \<Longrightarrow> k \<le> rne x"
  using rne_mono [of "of_int k" x] by simp

lemma rne_tie: "x = of_int k + 1 / 2 \<Longrightarrow> rne x = (if even k then k else k + 1)"
proof -
  assume x: "x = of_int k + 1 / 2"
  have "\<lfloor>x\<rfloor> = k" unfolding x by (simp add: floor_unique)
  then show ?thesis unfolding rne_def Let_def using x by simp
qed


lemma rne_lt_half: "y < of_int k - 1 / 2 \<Longrightarrow> rne y \<le> k - 1"
proof -
  assume a: "y < of_int k - 1 / 2"
  have "(of_int (rne y) :: rat) < of_int k" using rne_error [of y] a by linarith
  then show ?thesis by simp
qed

subsection \<open>The binary exponent\<close>

lemma bitlen_rat_bounds:
  assumes "0 < a"
  shows "(2::rat) powi (bitlen a - 1) \<le> of_int a" and "of_int a < (2::rat) powi bitlen a"
proof -
  from bitlen_bounds [OF assms]
  have lo: "2 ^ nat (bitlen a - 1) \<le> a" and hi: "a < 2 ^ nat (bitlen a)" by auto
  have ge1: "1 \<le> bitlen a"
  proof (rule ccontr)
    assume "\<not> 1 \<le> bitlen a"
    then have "nat (bitlen a) = 0" by simp
    with hi assms show False by simp
  qed
  have "(2::rat) powi (bitlen a - 1) = of_int (2 ^ nat (bitlen a - 1))"
    using ge1 by (simp add: power_int_nonneg_exp)
  also have "\<dots> \<le> of_int a" using lo by (simp only: of_int_le_iff)
  finally show "(2::rat) powi (bitlen a - 1) \<le> of_int a" .
  have "(of_int a :: rat) < of_int (2 ^ nat (bitlen a))" using hi by (simp only: of_int_less_iff)
  also have "\<dots> = (2::rat) powi bitlen a"
    using ge1 by (simp add: power_int_nonneg_exp)
  finally show "of_int a < (2::rat) powi bitlen a" .
qed

lemma ilog2_bounds:
  assumes "0 < x"
  shows "2 powi ilog2 x \<le> x" and "x < 2 powi (ilog2 x + 1)"
proof -
  obtain a b where q: "quotient_of x = (a, b)" by force
  have b: "0 < b" using quotient_of_denom_pos [OF q] .
  have x: "x = of_int a / of_int b" using quotient_of_div [OF q] .
  have a: "0 < a"
  proof (rule ccontr)
    assume "\<not> 0 < a"
    then have "(of_int a :: rat) \<le> 0" by simp
    then have "x \<le> 0" unfolding x using b by (simp add: divide_nonpos_pos)
    with assms show False by simp
  qed
  let ?d = "bitlen a - bitlen b"
  have bp: "(0::rat) < of_int b" using b by simp
  have up: "x < 2 powi (?d + 1)"
  proof -
    have "x < 2 powi bitlen a / of_int b"
      unfolding x using bitlen_rat_bounds(2) [OF a] bp by (simp add: divide_strict_right_mono)
    also have "\<dots> \<le> 2 powi bitlen a / 2 powi (bitlen b - 1)"
      using bitlen_rat_bounds(1) [OF b] by (simp add: frac_le)
    also have "\<dots> = 2 powi (?d + 1)"
      by (simp add: power_int_diff [symmetric] algebra_simps)
    finally show ?thesis .
  qed
  have lo: "2 powi (?d - 1) \<le> x"
  proof -
    have "(2::rat) powi (?d - 1) = 2 powi (bitlen a - 1) / 2 powi bitlen b"
      by (simp add: power_int_diff [symmetric] algebra_simps)
    also have "\<dots> \<le> of_int a / 2 powi bitlen b"
      using bitlen_rat_bounds(1) [OF a] by (simp add: divide_right_mono)
    also have "\<dots> \<le> of_int a / of_int b"
      using bitlen_rat_bounds(2) [OF b] a bp by (simp add: frac_le)
    finally show ?thesis unfolding x .
  qed
  have il: "ilog2 x = (if 2 powi ?d \<le> x then ?d else ?d - 1)"
    by (simp add: ilog2_def q)
  show "2 powi ilog2 x \<le> x" using lo by (simp add: il)
  show "x < 2 powi (ilog2 x + 1)" using up by (auto simp: il not_le)
qed

lemma ilog2_unique:
  assumes "0 < x" and lo: "2 powi e \<le> x" and hi: "x < 2 powi (e + 1)"
  shows "ilog2 x = e"
proof (rule ccontr)
  assume ne: "ilog2 x \<noteq> e"
  note b = ilog2_bounds [OF assms(1)]
  show False
  proof (cases "ilog2 x < e")
    case True
    then have "(2::rat) powi (ilog2 x + 1) \<le> 2 powi e"
      by (intro power_int_increasing) simp_all
    with b(2) lo show False by simp
  next
    case False
    with ne have "e + 1 \<le> ilog2 x" by simp
    then have "(2::rat) powi (e + 1) \<le> 2 powi ilog2 x"
      by (intro power_int_increasing) simp_all
    with b(1) hi show False by simp
  qed
qed

lemma ilog2_le:
  assumes "0 < x" and "x < 2 powi (e + 1)"
  shows "ilog2 x \<le> e"
proof (rule ccontr)
  assume "\<not> ilog2 x \<le> e"
  then have "e + 1 \<le> ilog2 x" by simp
  then have "(2::rat) powi (e + 1) \<le> 2 powi ilog2 x"
    by (intro power_int_increasing) simp_all
  with ilog2_bounds(1) [OF assms(1)] assms(2) show False by simp
qed


subsection \<open>Rounding to the nearest double\<close>

lemma fl_pos_eq:
  "x \<noteq> 0 \<Longrightarrow> fl x = of_int (rne (x / 2 powi (max (ilog2 \<bar>x\<bar>) (- 1022) - 52)))
       * 2 powi (max (ilog2 \<bar>x\<bar>) (- 1022) - 52)"
  by (simp add: fl_def Let_def)

lemma fl_nonneg: "0 \<le> x \<Longrightarrow> 0 \<le> fl x"
proof (cases "x = 0")
  case True
  then show ?thesis by (simp add: fl_def)
next
  case False
  assume "0 \<le> x"
  let ?q = "max (ilog2 \<bar>x\<bar>) (- 1022) - 52"
  have "(of_int 0 :: rat) \<le> x / 2 powi ?q" using \<open>0 \<le> x\<close> by simp
  then have "0 \<le> rne (x / 2 powi ?q)" by (rule rne_ge_int)
  then show ?thesis unfolding fl_pos_eq [OF False] by simp
qed

lemma fl_eqI:
  assumes "0 < x" "2 powi e \<le> x" "x < 2 powi (e + 1)"
    and "rne (x / 2 powi (max e (- 1022) - 52)) = k"
  shows "fl x = of_int k * 2 powi (max e (- 1022) - 52)"
proof -
  have "ilog2 \<bar>x\<bar> = e" using assms(1-3) by (intro ilog2_unique) simp_all
  then show ?thesis using assms(1,4) by (simp add: fl_pos_eq)
qed

lemma fl_le_grid:
  assumes "0 < x" and "x \<le> of_int m * 2 powi g" and "ilog2 x \<le> g + 52" and "- 1074 \<le> g"
  shows "fl x \<le> of_int m * 2 powi g"
proof -
  let ?q = "max (ilog2 \<bar>x\<bar>) (- 1022) - 52"
  have qg: "?q \<le> g" using assms(1,3,4) by simp
  have B: "of_int m * 2 powi g = (of_int (m * 2 ^ nat (g - ?q)) :: rat) * 2 powi ?q"
  proof -
    have "(2::rat) powi g = 2 powi (g - ?q) * 2 powi ?q"
      by (simp add: power_int_add [symmetric])
    also have "(2::rat) powi (g - ?q) = 2 ^ nat (g - ?q)"
      using qg by (simp add: power_int_nonneg_exp)
    finally show ?thesis by simp
  qed
  have "x / 2 powi ?q \<le> of_int (m * 2 ^ nat (g - ?q))"
    using assms(2) unfolding B by (simp add: pos_divide_le_eq)
  then have "rne (x / 2 powi ?q) \<le> m * 2 ^ nat (g - ?q)" by (rule rne_le_int)
  then have "(of_int (rne (x / 2 powi ?q)) :: rat) \<le> of_int (m * 2 ^ nat (g - ?q))"
    by (simp only: of_int_le_iff)
  then have "of_int (rne (x / 2 powi ?q)) * 2 powi ?q \<le> (of_int (m * 2 ^ nat (g - ?q)) :: rat) * 2 powi ?q"
    by (rule mult_right_mono) simp
  then show ?thesis
    using assms(1) unfolding B by (simp add: fl_pos_eq)
qed

lemma fl_error:
  assumes "0 < x"
  shows "\<bar>fl x - x\<bar> \<le> 2 powi (max (ilog2 x) (- 1022) - 53)"
proof -
  let ?q = "max (ilog2 x) (- 1022) - 52"
  have p: "(0::rat) < 2 powi ?q" by simp
  have "fl x - x = (of_int (rne (x / 2 powi ?q)) - x / 2 powi ?q) * 2 powi ?q"
    using assms by (simp add: fl_pos_eq algebra_simps)
  then have "\<bar>fl x - x\<bar> = \<bar>of_int (rne (x / 2 powi ?q)) - x / 2 powi ?q\<bar> * 2 powi ?q"
    by (simp add: abs_mult)
  also have "\<dots> \<le> (1 / 2) * 2 powi ?q"
    by (intro mult_right_mono rne_error) simp
  also have "\<dots> = 2 powi (?q - 1)"
    by (simp add: power_int_diff)
  finally show ?thesis by (simp add: algebra_simps)
qed

lemma fl_unit_interval:
  assumes "0 \<le> x" "x \<le> 1"
  shows "0 \<le> fl x" and "fl x \<le> 1"
proof -
  show "0 \<le> fl x" using assms(1) by (rule fl_nonneg)
  show "fl x \<le> 1"
  proof (cases "x = 0")
    case True
    then show ?thesis by (simp add: fl_def)
  next
    case False
    with assms have pos: "0 < x" by simp
    have "ilog2 x \<le> 0" using pos assms(2) by (intro ilog2_le) simp_all
    then have "fl x \<le> of_int 1 * 2 powi 0"
      using pos assms(2) by (intro fl_le_grid) simp_all
    then show ?thesis by simp
  qed
qed

lemma fl_percent_interval:
  assumes "0 \<le> x" "x \<le> 100"
  shows "0 \<le> fl x" and "fl x \<le> 100"
proof -
  show "0 \<le> fl x" using assms(1) by (rule fl_nonneg)
  show "fl x \<le> 100"
  proof (cases "x = 0")
    case True
    then show ?thesis by (simp add: fl_def)
  next
    case False
    with assms have pos: "0 < x" by simp
    have "ilog2 x \<le> 6" using pos assms(2) by (intro ilog2_le) simp_all
    then have "fl x \<le> of_int 100 * 2 powi 0"
      using pos assms(2) by (intro fl_le_grid) simp_all
    then show ?thesis by simp
  qed
qed

lemma fl_below_one:
  assumes "0 \<le> x" and "x < 1 - 2 powi (- 54)"
  shows "fl x \<le> 1 - 2 powi (- 53)"
proof (cases "x = 0")
  case True
  then show ?thesis by (simp add: fl_def)
next
  case False
  with assms have pos: "0 < x" by simp
  have x1: "x < 2 powi (- 1 + 1)" using assms(2) by simp
  have le: "ilog2 x \<le> - 1" using pos x1 by (rule ilog2_le)
  show ?thesis
  proof (cases "ilog2 x = - 1")
    case True
    have "x / 2 powi (- 53) < of_int (2 ^ 53) - 1 / 2" using assms(2) by simp
    then have "rne (x / 2 powi (- 53)) \<le> 2 ^ 53 - 1" by (rule rne_lt_half)
    then have "(of_int (rne (x / 2 powi (- 53))) :: rat) \<le> of_int (2 ^ 53 - 1)"
      by (simp only: of_int_le_iff)
    then have "of_int (rne (x / 2 powi (- 53))) * 2 powi (- 53) \<le> (of_int (2 ^ 53 - 1) :: rat) * 2 powi (- 53)"
      by (rule mult_right_mono) simp
    moreover have "fl x = of_int (rne (x / 2 powi (- 53))) * 2 powi (- 53)"
      using pos True by (simp add: fl_pos_eq)
    ultimately show ?thesis by simp
  next
    case False
    with le have le2: "ilog2 x + 1 \<le> - 1" by simp
    have "x < 2 powi (ilog2 x + 1)" using ilog2_bounds(2) [OF pos] .
    also have "\<dots> \<le> 2 powi (- 1)" using le2 by (intro power_int_increasing) simp_all
    finally have "x \<le> of_int 1 * 2 powi (- 1)" by simp
    then have "fl x \<le> of_int 1 * 2 powi (- 1)"
      using pos le by (intro fl_le_grid) simp_all
    then show ?thesis by simp
  qed
qed

lemma fl_below_100:
  assumes "0 \<le> z" and "z \<le> 100 * (1 - 2 powi (- 53))"
  shows "fl z < 100"
proof (cases "z = 0")
  case True
  then show ?thesis by (simp add: fl_def)
next
  case False
  with assms have pos: "0 < z" by simp
  have z1: "z < 2 powi (6 + 1)" using assms(2) by simp
  have le: "ilog2 z \<le> 6" using pos z1 by (rule ilog2_le)
  show ?thesis
  proof (cases "ilog2 z = 6")
    case True
    have "z / 2 powi (- 46) < of_int (100 * 2 ^ 46) - 1 / 2" using assms(2) by simp
    then have "rne (z / 2 powi (- 46)) \<le> 100 * 2 ^ 46 - 1" by (rule rne_lt_half)
    then have "(of_int (rne (z / 2 powi (- 46))) :: rat) \<le> of_int (100 * 2 ^ 46 - 1)"
      by (simp only: of_int_le_iff)
    then have "of_int (rne (z / 2 powi (- 46))) * 2 powi (- 46)
                 \<le> (of_int (100 * 2 ^ 46 - 1) :: rat) * 2 powi (- 46)"
      by (rule mult_right_mono) simp
    moreover have "fl z = of_int (rne (z / 2 powi (- 46))) * 2 powi (- 46)"
      using pos True by (simp add: fl_pos_eq)
    ultimately show ?thesis by simp
  next
    case False
    with le have le2: "ilog2 z + 1 \<le> 6" by simp
    have "z < 2 powi (ilog2 z + 1)" using ilog2_bounds(2) [OF pos] .
    also have "\<dots> \<le> 2 powi 6" using le2 by (intro power_int_increasing) simp_all
    finally have "z \<le> of_int 64 * 2 powi 0" by simp
    then have "fl z \<le> of_int 64 * 2 powi 0"
      using pos le by (intro fl_le_grid) simp_all
    then show ?thesis by simp
  qed
qed

lemma fl_error_unit:
  assumes "0 \<le> x" "x \<le> 1"
  shows "\<bar>fl x - x\<bar> \<le> 2 powi (- 53)"
proof (cases "x = 0")
  case True
  then show ?thesis by (simp add: fl_def)
next
  case False
  with assms have pos: "0 < x" by simp
  have "ilog2 x \<le> 0" using pos assms(2) by (intro ilog2_le) simp_all
  then have "(2::rat) powi (max (ilog2 x) (- 1022) - 53) \<le> 2 powi (- 53)"
    by (intro power_int_increasing) simp_all
  with fl_error [OF pos] show ?thesis by linarith
qed

lemma fl_error_percent:
  assumes "0 \<le> z" "z \<le> 100"
  shows "\<bar>fl z - z\<bar> \<le> 2 powi (- 47)"
proof (cases "z = 0")
  case True
  then show ?thesis by (simp add: fl_def)
next
  case False
  with assms have pos: "0 < z" by simp
  have "ilog2 z \<le> 6" using pos assms(2) by (intro ilog2_le) simp_all
  then have "(2::rat) powi (max (ilog2 z) (- 1022) - 53) \<le> 2 powi (- 47)"
    by (intro power_int_increasing) simp_all
  with fl_error [OF pos] show ?thesis by linarith
qed

subsection \<open>Some values\<close>

lemma fl_29_100: "fl (29 / 100) = 5224175567749775 / 2 ^ 54"
proof -
  have "fl (29 / 100) = of_int 5224175567749775 * 2 powi (max (- 2) (- 1022) - 52)"
    by (rule fl_eqI, simp, simp, simp, rule rne_eqI, simp)
  then show ?thesis by simp
qed

lemma fl_100_fl_29_100: "fl (100 * fl (29 / 100)) = 8162774324609023 / 2 ^ 48"
proof -
  have "fl (100 * (5224175567749775 / 2 ^ 54)) =
          of_int 8162774324609023 * 2 powi (max 4 (- 1022) - 52)"
    by (rule fl_eqI, simp, simp, simp, rule rne_eqI, simp)
  then show ?thesis by (simp add: fl_29_100)
qed

lemma fl_near_one: "fl ((2 ^ 54 - 1) / 2 ^ 54) = 1"
proof -
  have "rne ((2 ^ 54 - 1) / 2 ^ 54 / 2 powi (max (- 1) (- 1022) - 52)) = 2 ^ 53"
    using rne_tie [of "(2 ^ 54 - 1) / 2 ^ 54 / 2 powi (max (- 1) (- 1022) - 52)" "2 ^ 53 - 1"]
    by simp
  then have "fl ((2 ^ 54 - 1) / 2 ^ 54) = of_int (2 ^ 53) * 2 powi (max (- 1) (- 1022) - 52)"
    by (intro fl_eqI) simp_all
  then show ?thesis by simp
qed

lemma fl_100: "fl 100 = 100"
proof -
  have "fl 100 = of_int (100 * 2 ^ 46) * 2 powi (max 6 (- 1022) - 52)"
    by (rule fl_eqI, simp, simp, simp, rule rne_eqI, simp)
  then show ?thesis by simp
qed






section \<open>Properties of the background-task demo\<close>

lemma set_num_tasks_ge_1: "set_num_tasks v p = Inr p' \<Longrightarrow> 1 \<le> num_tasks p'"
  by (auto simp: set_num_tasks_def split: if_splits)

lemma do_calc_step_progress [simp]: "progress (do_calc_step n w) = progress w"
  by (simp add: do_calc_step_def executor_submit_def add_future_def Let_def)

lemma do_calc_step_result [simp]: "result (do_calc_step n w) = result w"
  by (simp add: do_calc_step_def executor_submit_def add_future_def Let_def)

lemma do_calc_step_submitted [simp]:
  "submitted (do_calc_step n w) = submitted w @ [(length (submitted w), blocking_task)]"
  by (simp add: do_calc_step_def executor_submit_def add_future_def Let_def)

lemma do_calc_step_loop_futures [simp]:
  "loop_futures (do_calc_step n w) = loop_futures w @ [(length (submitted w), update)]"
  by (simp add: do_calc_step_def executor_submit_def add_future_def Let_def)

lemma fold_do_calc_step_progress:
  "progress (fold do_calc_step ns w) = progress w"
  by (induction ns arbitrary: w) simp_all

lemma fold_do_calc_step_result:
  "result (fold do_calc_step ns w) = result w"
  by (induction ns arbitrary: w) simp_all

lemma map_upt_shift:
  "map (\<lambda>i. (k + i, x)) [0..<Suc n] = (k, x) # map (\<lambda>i. (Suc k + i, x)) [0..<n]"
proof -
  have "[0..<Suc n] = 0 # map Suc [0..<n]"
    by (simp add: upt_conv_Cons map_Suc_upt del: upt_Suc)
  then show ?thesis
    by (simp add: comp_def del: upt_Suc)
qed

lemma fold_do_calc_step_submitted:
  "submitted (fold do_calc_step ns w) =
     submitted w @ map (\<lambda>i. (length (submitted w) + i, blocking_task)) [0..<length ns]"
proof (induction ns arbitrary: w)
  case Nil
  then show ?case by simp
next
  case (Cons n ns)
  let ?k = "length (submitted w)"
  have "submitted (fold do_calc_step (n # ns) w) = submitted (fold do_calc_step ns (do_calc_step n w))"
    by simp
  also have "\<dots> = submitted (do_calc_step n w) @
      map (\<lambda>i. (length (submitted (do_calc_step n w)) + i, blocking_task)) [0..<length ns]"
    by (rule Cons.IH)
  also have "\<dots> = submitted w @ ((?k, blocking_task) # map (\<lambda>i. (Suc ?k + i, blocking_task)) [0..<length ns])"
    by simp
  also have "\<dots> = submitted w @ map (\<lambda>i. (?k + i, blocking_task)) [0..<length (n # ns)]"
    by (simp only: map_upt_shift length_Cons)
  finally show ?case .
qed

lemma fold_do_calc_step_loop_futures:
  "loop_futures (fold do_calc_step ns w) =
     loop_futures w @ map (\<lambda>i. (length (submitted w) + i, update)) [0..<length ns]"
proof (induction ns arbitrary: w)
  case Nil
  then show ?case by simp
next
  case (Cons n ns)
  let ?k = "length (submitted w)"
  have "loop_futures (fold do_calc_step (n # ns) w) = loop_futures (fold do_calc_step ns (do_calc_step n w))"
    by simp
  also have "\<dots> = loop_futures (do_calc_step n w) @
      map (\<lambda>i. (length (submitted (do_calc_step n w)) + i, update)) [0..<length ns]"
    by (rule Cons.IH)
  also have "\<dots> = loop_futures w @ ((?k, update) # map (\<lambda>i. (Suc ?k + i, update)) [0..<length ns])"
    by simp
  also have "\<dots> = loop_futures w @ map (\<lambda>i. (?k + i, update)) [0..<length (n # ns)]"
    by (simp only: map_upt_shift length_Cons)
  finally show ?case .
qed

text \<open>
  C8. \<open>do_calc\<close> ignores its \<open>num_tasks\<close> argument: whatever value is passed, the call
  succeeds, \<open>progress.num_tasks\<close> becomes 20, exactly 20 tasks (all \<open>_blocking_task\<close>) are
  appended to the executor's queue and exactly 20 \<open>_update\<close> callbacks, one per new future,
  are registered on the loop; the result is the same as for the default argument 10.
\<close>

theorem do_calc_ignores_num_tasks:
  "\<exists>w'. do_calc n w = Inr w'
      \<and> num_tasks (progress w') = 20
      \<and> submitted w' =
          submitted w @ map (\<lambda>i. (length (submitted w) + i, blocking_task)) [0..<20]
      \<and> length (submitted w') = length (submitted w) + 20
      \<and> loop_futures w' =
          loop_futures w @ map (\<lambda>i. (length (submitted w) + i, update)) [0..<20]
      \<and> do_calc n w = do_calc 10 w"
  by (simp add: do_calc_def set_num_tasks_def py_range_def fold_do_calc_step_progress
        fold_do_calc_step_submitted fold_do_calc_step_loop_futures del: upt_Suc)

subsection \<open>The progress value\<close>

lemma value_eq:
  assumes "1 \<le> num_tasks p" "0 \<le> completed p" "completed p \<le> num_tasks p"
  shows "ProgressExtMod_value p =
           Inr \<lfloor>fl (100 * fl (of_int (completed p) / of_int (num_tasks p)))\<rfloor>"
    and "0 \<le> fl (100 * fl (of_int (completed p) / of_int (num_tasks p)))"
    and "fl (100 * fl (of_int (completed p) / of_int (num_tasks p))) \<le> 100"
proof -
  let ?x = "of_int (completed p) / of_int (num_tasks p) :: rat"
  have x: "0 \<le> ?x" "?x \<le> 1" using assms by simp_all
  note d = fl_unit_interval [OF x]
  have z: "0 \<le> 100 * fl ?x" "100 * fl ?x \<le> 100" using d by simp_all
  note r = fl_percent_interval [OF z]
  show "0 \<le> fl (100 * fl ?x)" "fl (100 * fl ?x) \<le> 100" using r by simp_all
  have big: "(100::rat) < 2 ^ 1024" by simp
  have nd: "\<not> 2 ^ 1024 \<le> \<bar>fl ?x\<bar>" using d big by simp
  have nr: "\<not> 2 ^ 1024 \<le> \<bar>fl (100 * fl ?x)\<bar>" using r big by simp
  show "ProgressExtMod_value p = Inr \<lfloor>fl (100 * fl ?x)\<rfloor>"
    using assms(1) nd nr r(1)
    by (simp add: ProgressExtMod_value_def int_truediv_def float_mul_def py_int_def Let_def)
qed


lemma value_29_100:
  "ProgressExtMod_value \<lparr>completed = 29, bar_color = ''info'', num_tasks = 100\<rparr> = Inr 28"
proof -
  have "\<lfloor>(8162774324609023 / 2 ^ 48 :: rat)\<rfloor> = 28"
    by (rule floor_unique) simp_all
  then show ?thesis
    using value_eq(1) [of "\<lparr>completed = 29, bar_color = ''info'', num_tasks = 100\<rparr>"]
    by (simp add: fl_100_fl_29_100)
qed

lemma value_near_one:
  "ProgressExtMod_value \<lparr>completed = 2 ^ 54 - 1, bar_color = ''info'', num_tasks = 2 ^ 54\<rparr>
     = Inr 100"
  using value_eq(1) [of "\<lparr>completed = 2 ^ 54 - 1, bar_color = ''info'', num_tasks = 2 ^ 54\<rparr>"]
    fl_near_one
  by (simp add: fl_100)


lemma value_lt_100:
  assumes "0 \<le> completed p" "completed p < num_tasks p" "num_tasks p < 2 ^ 54"
  shows "\<exists>v. ProgressExtMod_value p = Inr v \<and> 0 \<le> v \<and> v < 100"
proof -
  let ?c = "completed p" and ?n = "num_tasks p"
  let ?x = "of_int ?c / of_int ?n :: rat"
  have n1: "1 \<le> ?n" using assms by simp
  have np: "(0::rat) < of_int ?n" using n1 by simp
  have x0: "0 \<le> ?x" using assms n1 by simp
  have "?x \<le> (of_int ?n - 1) / of_int ?n"
    using assms(2) np by (intro divide_right_mono) simp_all
  also have "\<dots> = 1 - 1 / of_int ?n" using np by (simp add: field_simps)
  also have "\<dots> < 1 - 2 powi (- 54)"
  proof -
    have "(of_int ?n :: rat) < of_int (2 ^ 54)" using assms(3) by (simp only: of_int_less_iff)
    then have "(of_int ?n :: rat) < 2 ^ 54" by simp
    then have "1 / (2 ^ 54 :: rat) < 1 / of_int ?n"
      using np by (intro divide_strict_left_mono) simp_all
    then show ?thesis by simp
  qed
  finally have x1: "?x < 1 - 2 powi (- 54)" .
  have d: "fl ?x \<le> 1 - 2 powi (- 53)" using x0 x1 by (rule fl_below_one)
  have d0: "0 \<le> fl ?x" using x0 by (rule fl_nonneg)
  have "fl (100 * fl ?x) < 100" using d d0 by (intro fl_below_100) simp_all
  then have "\<lfloor>fl (100 * fl ?x)\<rfloor> < 100" by (simp add: floor_less_iff)
  moreover have "0 \<le> \<lfloor>fl (100 * fl ?x)\<rfloor>"
    using value_eq(2) [of p] n1 assms by simp
  ultimately show ?thesis using value_eq(1) [of p] n1 assms by simp
qed

lemma value_close:
  assumes "1 \<le> num_tasks p" "0 \<le> completed p" "completed p \<le> num_tasks p"
  shows "\<bar>\<lfloor>fl (100 * fl (of_int (completed p) / of_int (num_tasks p)))\<rfloor>
            - (100 * completed p) div num_tasks p\<bar> \<le> 1"
proof -
  let ?x = "of_int (completed p) / of_int (num_tasks p) :: rat"
  have x: "0 \<le> ?x" "?x \<le> 1" using assms by simp_all
  note d = fl_unit_interval [OF x]
  have z: "0 \<le> 100 * fl ?x" "100 * fl ?x \<le> 100" using d by simp_all
  have e1: "\<bar>fl ?x - ?x\<bar> \<le> 2 powi (- 53)" using x by (rule fl_error_unit)
  have e2: "\<bar>fl (100 * fl ?x) - 100 * fl ?x\<bar> \<le> 2 powi (- 47)" using z by (rule fl_error_percent)
  have small: "(2::rat) powi (- 47) + 100 * 2 powi (- 53) < 1" by simp
  have close: "\<bar>fl (100 * fl ?x) - 100 * ?x\<bar> < 1"
    using e1 e2 small by linarith
  have t: "(100 * completed p) div num_tasks p = \<lfloor>100 * ?x\<rfloor>"
  proof -
    have "\<lfloor>(of_int (100 * completed p) :: rat) / of_int (num_tasks p)\<rfloor>
            = (100 * completed p) div num_tasks p"
      by (rule floor_divide_of_int_eq)
    then show ?thesis by simp
  qed
  have "\<lfloor>fl (100 * fl ?x)\<rfloor> \<le> \<lfloor>100 * ?x\<rfloor> + 1"
    using close by (simp add: floor_le_iff) linarith
  moreover have "\<lfloor>100 * ?x\<rfloor> \<le> \<lfloor>fl (100 * fl ?x)\<rfloor> + 1"
    using close by (simp add: floor_le_iff) linarith
  ultimately show ?thesis unfolding t by linarith
qed

text \<open>
  C10 as the code has it. \<open>value\<close> never divides by zero: \<open>num_tasks\<close> is at least 1
  (\<open>set_num_tasks_ge_1\<close>, and the default is 100). For every state with
  \<open>0 \<le> completed \<le> num_tasks\<close> it returns an integer between 0 and 100 inclusive. That
  integer is the truncation of the float product \<open>100 * (completed / num_tasks)\<close>, which is
  within 1 of the exact truncated quotient \<open>100 * completed div num_tasks\<close> and need not be
  equal to it.
\<close>

theorem value_well_defined:
  assumes "1 \<le> num_tasks p" and "0 \<le> completed p" and "completed p \<le> num_tasks p"
  shows "(\<exists>v. ProgressExtMod_value p = Inr v
           \<and> v = \<lfloor>fl (100 * fl (of_int (completed p) / of_int (num_tasks p)))\<rfloor>
           \<and> 0 \<le> v \<and> v \<le> 100
           \<and> \<bar>v - (100 * completed p) div num_tasks p\<bar> \<le> 1)
         \<and> ProgressExtMod_value p \<noteq> Inl ZeroDivisionError
         \<and> 1 \<le> num_tasks ProgressExtMod_init
         \<and> (\<forall>n q. set_num_tasks n p = Inr q \<longrightarrow> 1 \<le> num_tasks q)"
proof -
  let ?r = "fl (100 * fl (of_int (completed p) / of_int (num_tasks p)))"
  have e: "ProgressExtMod_value p = Inr \<lfloor>?r\<rfloor>" using assms by (rule value_eq(1))
  have "0 \<le> \<lfloor>?r\<rfloor>" using value_eq(2) [OF assms] by simp
  moreover have "\<lfloor>?r\<rfloor> \<le> 100" using value_eq(3) [OF assms] by (simp add: floor_le_iff)
  moreover have "\<bar>\<lfloor>?r\<rfloor> - (100 * completed p) div num_tasks p\<bar> \<le> 1"
    using assms by (rule value_close)
  moreover have "1 \<le> num_tasks ProgressExtMod_init" by (simp add: ProgressExtMod_init_def)
  moreover have "\<forall>n q. set_num_tasks n p = Inr q \<longrightarrow> 1 \<le> num_tasks q"
    using set_num_tasks_ge_1 by blast
  ultimately show ?thesis using e by simp
qed

theorem value_well_defined_witness:
  "ProgressExtMod_value \<lparr>completed = 29, bar_color = ''info'', num_tasks = 100\<rparr> = Inr 28
   \<and> \<bar>28 - (100 * 29) div (100 :: int)\<bar> \<le> 1
   \<and> set_num_tasks 20 \<lparr>completed = 29, bar_color = ''info'', num_tasks = 100\<rparr> =
       Inr \<lparr>completed = 29, bar_color = ''info'', num_tasks = 20\<rparr>
   \<and> set_num_tasks 0 \<lparr>completed = 29, bar_color = ''info'', num_tasks = 100\<rparr> = Inl ValueError"
  using value_well_defined [of "\<lparr>completed = 29, bar_color = ''info'', num_tasks = 100\<rparr>"]
    value_29_100
  by (simp add: set_num_tasks_def)

text \<open>
  C10 as stated fails: at \<open>completed = 29\<close>, \<open>num_tasks = 100\<close> (the default) the exact
  truncation of \<open>100 * 29 / 100\<close> is 29, and \<open>value\<close> is 28, because \<open>29 / 100\<close> rounds to a
  double below 0.29 and the product with 100 to a double below 29.
\<close>

theorem value_not_exact_truncation:
  "ProgressExtMod_value \<lparr>completed = 29, bar_color = ''info'', num_tasks = 100\<rparr> = Inr 28
   \<and> (100 * 29) div (100 :: int) = 29
   \<and> ProgressExtMod_value \<lparr>completed = 29, bar_color = ''info'', num_tasks = 100\<rparr>
       \<noteq> Inr ((100 * 29) div 100)"
  by (simp add: value_29_100)

subsection \<open>Sequences of increment calls\<close>

lemma increment_exit_enter:
  assumes "0 \<le> completed p" and "completed p < num_tasks p"
  shows "increment_exit (increment_enter p) =
           p\<lparr>completed := (completed p + 1) mod num_tasks p\<rparr>"
proof (cases "completed p + 1 = num_tasks p")
  case True
  then show ?thesis by (simp add: increment_exit_def increment_enter_def reset_def)
next
  case False
  with assms have "(completed p + 1) mod num_tasks p = completed p + 1" by simp
  with False show ?thesis by (simp add: increment_exit_def increment_enter_def)
qed

lemma increment_returns:
  assumes "\<forall>w'. fst (b w') = None \<and> progress (snd (b w')) = progress w'"
  shows "\<exists>w'. increment b w = (None, w')
           \<and> progress w' = increment_exit (increment_enter (progress w))"
proof -
  let ?w1 = "w\<lparr>progress := increment_enter (progress w)\<rparr>"
  obtain r w2 where b: "b ?w1 = (r, w2)" by (cases "b ?w1")
  from assms have "fst (b ?w1) = None" and "progress (snd (b ?w1)) = progress ?w1" by simp_all
  with b have "r = None" and "progress w2 = increment_enter (progress w)" by simp_all
  with b show ?thesis by (simp add: increment_def)
qed

lemma increments_returns:
  assumes "\<forall>b \<in> set bs. \<forall>w'. fst (b w') = None \<and> progress (snd (b w')) = progress w'"
    and "0 \<le> completed (progress w)" and "completed (progress w) < num_tasks (progress w)"
  shows "\<exists>w'. increments bs w = (None, w')
           \<and> progress w' = (progress w)
               \<lparr>completed := (completed (progress w) + int (length bs)) mod num_tasks (progress w)\<rparr>"
  using assms
proof (induction bs arbitrary: w)
  case Nil
  then show ?case by simp
next
  case (Cons b bs)
  let ?n = "num_tasks (progress w)" and ?c = "completed (progress w)"
  from Cons.prems(1) have gb: "\<forall>w'. fst (b w') = None \<and> progress (snd (b w')) = progress w'"
    and gbs: "\<forall>b \<in> set bs. \<forall>w'. fst (b w') = None \<and> progress (snd (b w')) = progress w'"
    by simp_all
  from increment_returns [OF gb, of w] obtain w1
    where w1: "increment b w = (None, w1)"
      and p1: "progress w1 = increment_exit (increment_enter (progress w))" by blast
  have p1': "progress w1 = (progress w)\<lparr>completed := (?c + 1) mod ?n\<rparr>"
    using p1 increment_exit_enter [OF Cons.prems(2,3)] by simp
  have n: "0 < ?n" using Cons.prems(2,3) by simp
  have c1: "0 \<le> completed (progress w1)" "completed (progress w1) < num_tasks (progress w1)"
    using n by (simp_all add: p1')
  from Cons.IH [OF gbs c1] obtain w2
    where w2: "increments bs w1 = (None, w2)"
      and p2: "progress w2 = (progress w1)
          \<lparr>completed := (completed (progress w1) + int (length bs)) mod num_tasks (progress w1)\<rparr>"
    by blast
  have "((?c + 1) mod ?n + int (length bs)) mod ?n = (?c + 1 + int (length bs)) mod ?n"
    by (rule mod_add_left_eq)
  also have "?c + 1 + int (length bs) = ?c + int (length (b # bs))" by simp
  finally have "((?c + 1) mod ?n + int (length bs)) mod ?n = (?c + int (length (b # bs))) mod ?n" .
  then have "progress w2 = (progress w)\<lparr>completed := (?c + int (length (b # bs))) mod ?n\<rparr>"
    using p2 by (simp add: p1')
  with w1 w2 show ?case by simp
qed

lemma update_body_returns:
  "fst (update_body t w) = None \<and> progress (snd (update_body t w)) = progress w"
  by (simp add: update_body_def)

text \<open>
  C9 as the code has it. Start from \<open>completed = 0\<close> with \<open>num_tasks \<ge> 1\<close>, and let every
  body return normally and leave the progress object alone. Then every call of
  \<open>increment\<close> returns, \<open>num_tasks\<close> stays fixed, and after the calls \<open>completed\<close> is the
  number of calls modulo \<open>num_tasks\<close>: each call raises it by 1 and resets it to 0 when it
  reaches \<open>num_tasks\<close>. So \<open>0 \<le> completed < num_tasks\<close> after each call (\<open>bs\<close> is any
  sequence, hence also every prefix of one). \<open>value\<close> is then below 100 provided that
  \<open>num_tasks < 2 ^ 54\<close>.
\<close>

theorem increment_invariant:
  assumes "1 \<le> num_tasks (progress w)" and "completed (progress w) = 0"
    and "\<forall>b \<in> set bs. \<forall>w'. fst (b w') = None \<and> progress (snd (b w')) = progress w'"
  shows "\<exists>w'. increments bs w = (None, w')
           \<and> num_tasks (progress w') = num_tasks (progress w)
           \<and> completed (progress w') = int (length bs) mod num_tasks (progress w)
           \<and> 0 \<le> completed (progress w') \<and> completed (progress w') < num_tasks (progress w')
           \<and> (num_tasks (progress w) < 2 ^ 54 \<longrightarrow>
                (\<exists>v. ProgressExtMod_value (progress w') = Inr v \<and> 0 \<le> v \<and> v < 100))"
proof -
  let ?n = "num_tasks (progress w)"
  have c: "0 \<le> completed (progress w)" "completed (progress w) < ?n" using assms(1,2) by simp_all
  from increments_returns [OF assms(3) c] obtain w'
    where r: "increments bs w = (None, w')"
      and p: "progress w' = (progress w)\<lparr>completed := int (length bs) mod ?n\<rparr>"
    using assms(2) by auto
  have n: "0 < ?n" using assms(1) by simp
  have 1: "num_tasks (progress w') = ?n" and 2: "completed (progress w') = int (length bs) mod ?n"
    by (simp_all add: p)
  have 3: "0 \<le> completed (progress w')" and 4: "completed (progress w') < num_tasks (progress w')"
    using n by (simp_all add: p)
  have 5: "num_tasks (progress w) < 2 ^ 54 \<longrightarrow>
      (\<exists>v. ProgressExtMod_value (progress w') = Inr v \<and> 0 \<le> v \<and> v < 100)"
  proof
    assume "num_tasks (progress w) < 2 ^ 54"
    then have "num_tasks (progress w') < 2 ^ 54" using 1 by simp
    with 3 4 show "\<exists>v. ProgressExtMod_value (progress w') = Inr v \<and> 0 \<le> v \<and> v < 100"
      by (rule value_lt_100)
  qed
  from r 1 2 3 4 5 show ?thesis by blast
qed

theorem increment_invariant_witness:
  "increments [update_body blocking_task, update_body blocking_task] (fresh_world 3) =
     (None, \<lparr>progress = \<lparr>completed = 2, bar_color = ''info'', num_tasks = 3\<rparr>, result = 10,
             submitted = [], loop_futures = []\<rparr>)
   \<and> increments [update_body blocking_task, update_body blocking_task,
                 update_body blocking_task] (fresh_world 3) =
       (None, \<lparr>progress = \<lparr>completed = 0, bar_color = ''info'', num_tasks = 3\<rparr>, result = 15,
               submitted = [], loop_futures = []\<rparr>)
   \<and> (\<exists>v. ProgressExtMod_value \<lparr>completed = 2, bar_color = ''info'', num_tasks = 3\<rparr> = Inr v
          \<and> 0 \<le> v \<and> v < 100)"
  using increment_invariant [of "fresh_world 3"
      "[update_body blocking_task, update_body blocking_task]"]
    increment_invariant [of "fresh_world 3"
      "[update_body blocking_task, update_body blocking_task, update_body blocking_task]"]
  by (simp add: fresh_world_def update_body_def task_result_def increment_def
        increment_enter_def increment_exit_def reset_def)

text \<open>
  C9 as stated fails in its last part. With \<open>num_tasks = 2 ^ 54\<close>, after \<open>2 ^ 54 - 1\<close> calls
  of the \<open>_update\<close> callback every call has returned and \<open>completed = 2 ^ 54 - 1\<close> is below
  \<open>num_tasks\<close>, yet the quotient rounds to the double 1.0 and \<open>value\<close> is 100.
\<close>

theorem increment_value_reaches_100:
  "fst (increments (replicate (2 ^ 54 - 1) (update_body blocking_task)) (fresh_world (2 ^ 54)))
     = None
   \<and> progress (snd (increments (replicate (2 ^ 54 - 1) (update_body blocking_task))
        (fresh_world (2 ^ 54)))) =
       \<lparr>completed = 2 ^ 54 - 1, bar_color = ''info'', num_tasks = 2 ^ 54\<rparr>
   \<and> (2 ^ 54 - 1 :: int) < 2 ^ 54
   \<and> ProgressExtMod_value (progress (snd (increments
        (replicate (2 ^ 54 - 1) (update_body blocking_task)) (fresh_world (2 ^ 54))))) = Inr 100"
proof -
  let ?bs = "replicate (2 ^ 54 - 1) (update_body blocking_task)"
  let ?w = "fresh_world (2 ^ 54)"
  have g: "\<forall>b \<in> set ?bs. \<forall>w'. fst (b w') = None \<and> progress (snd (b w')) = progress w'"
    by (simp add: update_body_returns)
  have c: "0 \<le> completed (progress ?w)" "completed (progress ?w) < num_tasks (progress ?w)"
    by (simp_all add: fresh_world_def)
  from increments_returns [OF g c] obtain w'
    where r: "increments ?bs ?w = (None, w')"
      and p: "progress w' = (progress ?w)
          \<lparr>completed := (completed (progress ?w) + int (length ?bs)) mod num_tasks (progress ?w)\<rparr>"
    by blast
  have "int (length ?bs) = 2 ^ 54 - 1" by simp
  then have pw: "progress w' = \<lparr>completed = 2 ^ 54 - 1, bar_color = ''info'', num_tasks = 2 ^ 54\<rparr>"
    using p by (simp add: fresh_world_def)
  have v: "ProgressExtMod_value \<lparr>completed = 2 ^ 54 - 1, bar_color = ''info'', num_tasks = 2 ^ 54\<rparr>
             = Inr 100"
    by (rule value_near_one)
  show ?thesis unfolding r fst_conv snd_conv pw using v by simp
qed

section \<open>Properties of the image classifier\<close>

subsection \<open>The classification pipeline\<close>

lemma preprocess_input_eq:
  "preprocess_input L self img =
     (preprocess_input_func self
        (np_expand_dims L (img_to_array_func self (image_resize L img (input_shape self))) 0),
      [Image_resize (input_shape self), Img_to_array, Expand_dims 0, Preprocess_input])"
  by (simp add: preprocess_input_def to_input_shape_def Let_def)

lemma get_top_predictions_eq:
  "get_top_predictions L self img rp s =
     ((rp [] 0 (rp (classifying_message (name self)) 85
         (rp ''Processing image ... '' 67 (rp (loading_message (name self)) 10 s))),
       [Report_progress (loading_message (name self)) 10,
        Get_model ''imagenet'',
        Report_progress ''Processing image ... '' 67,
        Image_resize (input_shape self), Img_to_array, Expand_dims 0, Preprocess_input,
        Report_progress (classifying_message (name self)) 85,
        Model_predict, Decode_predictions,
        Report_progress [] 0]),
      py_index (decode_predictions_func self
        (model_predict L (keras_application self ''imagenet'')
           (preprocess_input_func self
              (np_expand_dims L
                 (img_to_array_func self (image_resize L img (input_shape self))) 0)))) 0)"
  by (simp add: get_top_predictions_def preprocess_input_eq get_model_def Let_def)

lemma py_index_first:
  "py_index xs 0 = (case xs of [] \<Rightarrow> Inl IndexError | first # rest \<Rightarrow> Inr first)"
  by (simp add: py_index_def split: list.split)

text \<open>
  C1. For every image, application, callback and state, \<open>get_top_predictions\<close> returns the
  first element of the list that \<open>decode_predictions_func\<close> makes of \<open>model.predict\<close> applied
  to the model of \<open>get_model\<close> and the image of \<open>preprocess_input\<close>: when that list is
  \<open>first # rest\<close> the result is \<open>first\<close>, and when it is empty the indexing raises
  \<open>IndexError\<close>. \<open>preprocess_input\<close> resizes to \<open>input_shape\<close>, converts to an array, expands
  a batch dimension on axis 0 and applies the application's preprocess function. The
  calls other than the four progress reports are exactly these, in this order.
\<close>

theorem get_top_predictions_steps:
  "snd (get_top_predictions L self img rp s) =
     (case decode_predictions_func self
             (model_predict L (fst (get_model self)) (fst (preprocess_input L self img))) of
        [] \<Rightarrow> Inl IndexError
      | first # rest \<Rightarrow> Inr first)
   \<and> fst (preprocess_input L self img) =
       preprocess_input_func self
         (np_expand_dims L (img_to_array_func self (image_resize L img (input_shape self))) 0)
   \<and> filter (\<lambda>c. \<not> is_report c) (snd (fst (get_top_predictions L self img rp s))) =
       [Get_model ''imagenet'', Image_resize (input_shape self), Img_to_array, Expand_dims 0,
        Preprocess_input, Model_predict, Decode_predictions]
   \<and> filter is_report (snd (fst (get_top_predictions L self img rp s))) =
       [Report_progress (loading_message (name self)) 10,
        Report_progress ''Processing image ... '' 67,
        Report_progress (classifying_message (name self)) 85,
        Report_progress [] 0]"
  by (simp add: get_top_predictions_eq preprocess_input_eq get_model_def py_index_first)

lemma set_top_predictions_skip:
  assumes "\<not> (truthy_bytes (image_file self) \<and> model self \<noteq> None)"
  shows "set_top_predictions L self =
    ((self\<lparr>top_predictions := None\<rparr>, [Assign_top_predictions None]), None)"
  using assms
  by (auto simp: set_top_predictions_def truthy_bytes_def Let_def split: option.splits)

lemma set_top_predictions_reject:
  assumes "image_file self = Some b" "b \<noteq> []" "model self = Some m" "image_open L b = Inl e"
  shows "set_top_predictions L self =
    ((report_progress ''Prediction Started'' 1 (self\<lparr>top_predictions := None\<rparr>),
      [Assign_top_predictions None, Report_progress ''Prediction Started'' 1, Image_open]),
     Some e)"
  using assms by (simp add: set_top_predictions_def Let_def)

lemma set_top_predictions_run:
  assumes "image_file self = Some b" "b \<noteq> []" "model self = Some m" "image_open L b = Inr img"
  shows "set_top_predictions L self =
    (case get_top_predictions L m img report_progress
            (report_progress ''Prediction Started'' 1 (self\<lparr>top_predictions := None\<rparr>)) of
       ((self3, cs), Inr tp) \<Rightarrow>
         ((self3\<lparr>top_predictions := Some tp\<rparr>,
           [Assign_top_predictions None, Report_progress ''Prediction Started'' 1, Image_open]
             @ cs @ [Assign_top_predictions (Some tp)]), None)
     | ((self3, cs), Inl e) \<Rightarrow>
         ((self3,
           [Assign_top_predictions None, Report_progress ''Prediction Started'' 1, Image_open]
             @ cs), Some e))"
  using assms by (simp add: set_top_predictions_def report_progress_def Let_def)

lemma set_top_predictions_uses_model:
  "model (fst (fst (set_top_predictions L app))) = model app
   \<and> (filter uses_model (snd (fst (set_top_predictions L app))) = []
      \<or> filter uses_model (snd (fst (set_top_predictions L app))) =
          [Get_model ''imagenet'', Model_predict])"
proof (cases "truthy_bytes (image_file app) \<and> model app \<noteq> None")
  case False
  then show ?thesis by (simp add: set_top_predictions_skip)
next
  case True
  then obtain b m where bm: "image_file app = Some b" "b \<noteq> []" "model app = Some m"
    by (auto simp: truthy_bytes_def split: option.splits)
  show ?thesis
  proof (cases "image_open L b")
    case (Inl e)
    with bm show ?thesis by (simp add: set_top_predictions_reject report_progress_def)
  next
    case (Inr img)
    with bm show ?thesis
      by (simp add: set_top_predictions_run get_top_predictions_eq report_progress_def
            split: sum.split)
  qed
qed

text \<open>
  C6. \<open>get_model\<close> builds the application with \<open>weights="imagenet"\<close>. In a run of
  \<open>get_top_predictions\<close> the calls that touch the model are \<open>get_model\<close> and one \<open>predict\<close>,
  and nothing else. A run of \<open>set_top_predictions\<close> leaves the selected application as it
  was and touches a model either not at all or in just that way. (A model is a value
  here, and \<open>predict\<close> a function of it: the code under study has no other use of it.)
\<close>

theorem model_used_only_by_inference:
  "fst (get_model self) = keras_application self ''imagenet''
   \<and> filter uses_model (snd (fst (get_top_predictions L self img rp s))) =
       [Get_model ''imagenet'', Model_predict]
   \<and> count_list (snd (fst (get_top_predictions L self img rp s))) Model_predict = 1
   \<and> model (fst (fst (set_top_predictions L app))) = model app
   \<and> (filter uses_model (snd (fst (set_top_predictions L app))) = []
      \<or> filter uses_model (snd (fst (set_top_predictions L app))) =
          [Get_model ''imagenet'', Model_predict])"
  using set_top_predictions_uses_model [of L app]
  by (simp add: get_top_predictions_eq get_model_def)


subsection \<open>Recomputing the predictions\<close>

text \<open>
  C3. \<open>set_top_predictions\<close> begins by assigning \<open>None\<close> to \<open>top_predictions\<close>. It classifies
  (calls \<open>predict\<close>) if and only if \<open>image_file\<close> and \<open>model\<close> are both set and \<^verbatim>\<open>Image.open\<close>
  accepts the uploaded bytes. If \<open>image_file\<close> or \<open>model\<close> is not set, it returns with
  \<open>top_predictions = None\<close>, the rest of the object unchanged and nothing else done. If
  both are set and \<^verbatim>\<open>Image.open\<close> raises, the exception leaves the method right there:
  \<open>top_predictions\<close> is \<open>None\<close> and \<open>get_top_predictions\<close> was not called. If both are set and
  the bytes open as an image, what follows is one run of the selected model's
  \<open>get_top_predictions\<close> on that image, on the object whose \<open>top_predictions\<close> is already
  \<open>None\<close>; a list it returns is assigned to \<open>top_predictions\<close> as the last step, and if it
  raises, \<open>top_predictions\<close> stays \<open>None\<close>.
\<close>

theorem set_top_predictions_recomputes:
  "(\<exists>cs. snd (fst (set_top_predictions L self)) = Assign_top_predictions None # cs)
   \<and> (Model_predict \<in> set (snd (fst (set_top_predictions L self))))
      = (truthy_bytes (image_file self) \<and> model self \<noteq> None
         \<and> (\<exists>b img. image_file self = Some b \<and> image_open L b = Inr img))
   \<and> (\<not> (truthy_bytes (image_file self) \<and> model self \<noteq> None) \<longrightarrow>
        set_top_predictions L self =
          ((self\<lparr>top_predictions := None\<rparr>, [Assign_top_predictions None]), None))
   \<and> (\<forall>b m e. image_file self = Some b \<and> b \<noteq> [] \<and> model self = Some m
        \<and> image_open L b = Inl e \<longrightarrow>
        fst (fst (set_top_predictions L self)) =
          report_progress ''Prediction Started'' 1 (self\<lparr>top_predictions := None\<rparr>)
        \<and> top_predictions (fst (fst (set_top_predictions L self))) = None
        \<and> snd (set_top_predictions L self) = Some e
        \<and> snd (fst (set_top_predictions L self)) =
            [Assign_top_predictions None, Report_progress ''Prediction Started'' 1, Image_open])
   \<and> (\<forall>b m img. image_file self = Some b \<and> b \<noteq> [] \<and> model self = Some m
        \<and> image_open L b = Inr img \<longrightarrow>
        fst (fst (set_top_predictions L self)) =
          (fst (fst (get_top_predictions L m img report_progress
                  (report_progress ''Prediction Started'' 1 (self\<lparr>top_predictions := None\<rparr>)))))
            \<lparr>top_predictions :=
               (case snd (get_top_predictions L m img report_progress
                  (report_progress ''Prediction Started'' 1 (self\<lparr>top_predictions := None\<rparr>))) of
                  Inr tp \<Rightarrow> Some tp | Inl e \<Rightarrow> None)\<rparr>
        \<and> top_predictions (fst (fst (set_top_predictions L self))) =
          (case snd (get_top_predictions L m img report_progress
                  (report_progress ''Prediction Started'' 1 (self\<lparr>top_predictions := None\<rparr>))) of
             Inr tp \<Rightarrow> Some tp | Inl e \<Rightarrow> None)
        \<and> snd (set_top_predictions L self) =
          (case snd (get_top_predictions L m img report_progress
                  (report_progress ''Prediction Started'' 1 (self\<lparr>top_predictions := None\<rparr>))) of
             Inr tp \<Rightarrow> None | Inl e \<Rightarrow> Some e)
        \<and> snd (fst (set_top_predictions L self)) =
            [Assign_top_predictions None, Report_progress ''Prediction Started'' 1, Image_open]
            @ snd (fst (get_top_predictions L m img report_progress
                  (report_progress ''Prediction Started'' 1 (self\<lparr>top_predictions := None\<rparr>))))
            @ (case snd (get_top_predictions L m img report_progress
                  (report_progress ''Prediction Started'' 1 (self\<lparr>top_predictions := None\<rparr>))) of
                 Inr tp \<Rightarrow> [Assign_top_predictions (Some tp)] | Inl e \<Rightarrow> []))"
proof (cases "truthy_bytes (image_file self) \<and> model self \<noteq> None")
  case False
  then have "set_top_predictions L self =
      ((self\<lparr>top_predictions := None\<rparr>, [Assign_top_predictions None]), None)"
    by (rule set_top_predictions_skip)
  moreover have "\<not> (\<exists>b m. image_file self = Some b \<and> b \<noteq> [] \<and> model self = Some m)"
    using False by (auto simp: truthy_bytes_def)
  ultimately show ?thesis using False by auto
next
  case True
  then obtain b m where bm: "image_file self = Some b" "b \<noteq> []" "model self = Some m"
    by (auto simp: truthy_bytes_def split: option.splits)
  show ?thesis
  proof (cases "image_open L b")
    case (Inl e)
    show ?thesis
      using True bm Inl
      by (simp add: set_top_predictions_reject report_progress_def)
  next
    case (Inr img)
    show ?thesis
      using True bm Inr
      by (simp add: set_top_predictions_run get_top_predictions_eq report_progress_def
            split: sum.split)
  qed
qed

theorem set_top_predictions_recomputes_witness:
  "set_top_predictions stub_libs (stub_app (Some [255, 216, 255])) =
     ((stub_app (Some [255, 216, 255])
         \<lparr>top_predictions :=
            Some [(''n02123045'', ''tabby'', 7 / 10), (''n02124075'', ''Egyptian_cat'', 2 / 10)]\<rparr>,
       [Assign_top_predictions None,
        Report_progress ''Prediction Started'' 1, Image_open,
        Report_progress (loading_message ''MobileNetV2'') 10,
        Get_model ''imagenet'',
        Report_progress ''Processing image ... '' 67,
        Image_resize (224, 224), Img_to_array, Expand_dims 0, Preprocess_input,
        Report_progress (classifying_message ''MobileNetV2'') 85,
        Model_predict, Decode_predictions,
        Report_progress [] 0,
        Assign_top_predictions
          (Some [(''n02123045'', ''tabby'', 7 / 10), (''n02124075'', ''Egyptian_cat'', 2 / 10)])]),
      None)
   \<and> set_top_predictions stub_libs (stub_app (Some [1, 2, 3])) =
       ((stub_app (Some [1, 2, 3])
           \<lparr>top_predictions := None, progress_value := 1,
            progress_message := ''Prediction Started''\<rparr>,
         [Assign_top_predictions None, Report_progress ''Prediction Started'' 1, Image_open]),
        Some UnidentifiedImageError)
   \<and> set_top_predictions stub_libs (stub_app (Some [])) =
       ((stub_app (Some [])\<lparr>top_predictions := None\<rparr>, [Assign_top_predictions None]), None)
   \<and> set_top_predictions stub_libs (stub_app None) =
       ((stub_app None\<lparr>top_predictions := None\<rparr>, [Assign_top_predictions None]), None)"
  using set_top_predictions_recomputes [of stub_libs "stub_app (Some [255, 216, 255])"]
    set_top_predictions_recomputes [of stub_libs "stub_app (Some [1, 2, 3])"]
    set_top_predictions_recomputes [of stub_libs "stub_app (Some [])"]
    set_top_predictions_recomputes [of stub_libs "stub_app None"]
  by (simp add: stub_app_def truthy_bytes_def
        set_top_predictions_run [where b = "[255, 216, 255]" and img = "[255, 216, 255]"]
        set_top_predictions_reject [where b = "[1, 2, 3]" and e = UnidentifiedImageError]
        get_top_predictions_eq report_progress_def py_index_def stub_libs_def
        KERAS_APPLICATIONS_def)

text \<open>
  With both a model and an upload set, but an upload that is not an image, nothing is
  classified.
\<close>

theorem set_top_predictions_not_an_image:
  "truthy_bytes (image_file (stub_app (Some [1, 2, 3])))
   \<and> model (stub_app (Some [1, 2, 3])) \<noteq> None
   \<and> Model_predict \<notin> set (snd (fst (set_top_predictions stub_libs (stub_app (Some [1, 2, 3])))))
   \<and> top_predictions (fst (fst (set_top_predictions stub_libs (stub_app (Some [1, 2, 3])))))
       = None
   \<and> snd (set_top_predictions stub_libs (stub_app (Some [1, 2, 3])))
       = Some UnidentifiedImageError"
proof -
  have "set_top_predictions stub_libs (stub_app (Some [1, 2, 3])) =
      ((report_progress ''Prediction Started'' 1
          (stub_app (Some [1, 2, 3])\<lparr>top_predictions := None\<rparr>),
        [Assign_top_predictions None, Report_progress ''Prediction Started'' 1, Image_open]),
       Some UnidentifiedImageError)"
    by (rule set_top_predictions_reject [where b = "[1, 2, 3]"])
       (simp_all add: stub_app_def stub_libs_def)
  then show ?thesis
    by (simp add: truthy_bytes_def report_progress_def) (simp add: stub_app_def)
qed
subsection \<open>The model picker\<close>

lemma KERAS_APPLICATIONS_names:
  "map name (KERAS_APPLICATIONS L) =
     [''DenseNet121'', ''InceptionV3'', ''MobileNetV2'', ''NASNetMobile'', ''NASNetLarge'',
      ''ResNet50'', ''VGG19'', ''Xception'']"
  by (simp add: KERAS_APPLICATIONS_def)

lemma KERAS_APPLICATIONS_length: "length (KERAS_APPLICATIONS L) = 8"
  by (simp add: KERAS_APPLICATIONS_def)

lemma KERAS_APPLICATIONS_default:
  "py_index (KERAS_APPLICATIONS L) DEFAULT_KERAS_APPLICATION_INDEX =
     Inr (KERAS_APPLICATIONS L ! 2)"
  by (simp add: py_index_def DEFAULT_KERAS_APPLICATION_INDEX_def KERAS_APPLICATIONS_length)

lemma KERAS_APPLICATIONS_nth_2: "name (KERAS_APPLICATIONS L ! 2) = ''MobileNetV2''"
  by (simp add: KERAS_APPLICATIONS_def)

lemma KERAS_APPLICATIONS_nonempty: "KERAS_APPLICATIONS L \<noteq> []"
  by (simp add: KERAS_APPLICATIONS_def)

lemma ImageClassifierApp_init_eq:
  assumes "g = [] \<or> g = KERAS_APPLICATIONS L"
  shows "ImageClassifierApp_init L g =
     Inr (KERAS_APPLICATIONS L,
          \<lparr>model = Some (KERAS_APPLICATIONS L ! 2),
           model_default = Some (KERAS_APPLICATIONS L ! 2),
           model_objects = KERAS_APPLICATIONS L,
           image_file = None, top_predictions = None,
           progress_value = 0, progress_message = []\<rparr>)"
proof -
  have c: "config_keras_applications L g = KERAS_APPLICATIONS L"
    using assms by (auto simp: config_keras_applications_def)
  show ?thesis
    unfolding ImageClassifierApp_init_def Let_def c KERAS_APPLICATIONS_default
    by (simp add: set_top_predictions_skip truthy_bytes_def)
qed

text \<open>
  C5. Constructing the app, on a fresh module or after an earlier construction, succeeds;
  the choices of the model selector are the list \<open>KERAS_APPLICATIONS\<close>, whose names are
  DenseNet121, InceptionV3, MobileNetV2, NASNetMobile, NASNetLarge, ResNet50, VGG19 and
  Xception in this order; and the selected model and the selector's default are
  \<open>KERAS_APPLICATIONS[DEFAULT_KERAS_APPLICATION_INDEX]\<close>, the entry of index 2, MobileNetV2.
\<close>

theorem model_picker_default:
  "ImageClassifierApp_init L [] =
     Inr (KERAS_APPLICATIONS L,
          \<lparr>model = Some (KERAS_APPLICATIONS L ! 2),
           model_default = Some (KERAS_APPLICATIONS L ! 2),
           model_objects = KERAS_APPLICATIONS L,
           image_file = None, top_predictions = None,
           progress_value = 0, progress_message = []\<rparr>)
   \<and> ImageClassifierApp_init L (KERAS_APPLICATIONS L) = ImageClassifierApp_init L []
   \<and> map name (KERAS_APPLICATIONS L) =
       [''DenseNet121'', ''InceptionV3'', ''MobileNetV2'', ''NASNetMobile'', ''NASNetLarge'',
        ''ResNet50'', ''VGG19'', ''Xception'']
   \<and> DEFAULT_KERAS_APPLICATION_INDEX = 2
   \<and> py_index (KERAS_APPLICATIONS L) DEFAULT_KERAS_APPLICATION_INDEX =
       Inr (KERAS_APPLICATIONS L ! 2)
   \<and> name (KERAS_APPLICATIONS L ! 2) = ''MobileNetV2''
   \<and> keras_application (KERAS_APPLICATIONS L ! 2) = tf_application L MobileNetV2"
proof -
  have "keras_application (KERAS_APPLICATIONS L ! 2) = tf_application L MobileNetV2"
    by (simp add: KERAS_APPLICATIONS_def)
  then show ?thesis
    using KERAS_APPLICATIONS_default [of L]
    by (simp add: ImageClassifierApp_init_eq KERAS_APPLICATIONS_names KERAS_APPLICATIONS_nth_2)
       (simp add: DEFAULT_KERAS_APPLICATION_INDEX_def)
qed

subsection \<open>The predictions view\<close>

text \<open>
  C7. When \<open>progress_value\<close> is not 0, \<open>predictions_view\<close> is the column with the heading, a
  progress bar of value \<open>progress_value\<close> and the text \<open>progress_message\<close> (so it is right
  after any \<open>report_progress\<close> with a value other than 0); when \<open>progress_value\<close> is 0 and
  \<open>top_predictions\<close> is a non-empty list, it is the column with the main prediction view
  and the predictions chart view; otherwise it is an empty HTML pane.
\<close>

theorem predictions_view_cases:
  "(progress_value self \<noteq> 0 \<longrightarrow>
      predictions_view self =
        Column [Markdown ''## Prediction'', Progress (progress_value self) 200,
                Str (progress_message self)] ''stretch_width'')
   \<and> (progress_value self = 0 \<and> truthy_list (top_predictions self) \<longrightarrow>
      predictions_view self =
        Column [Markdown ''## Prediction'', ParamMethod Main_prediction_view,
                Markdown ''## Alternative Predictions'', ParamMethod Predictions_chart_view]
          ''stretch_width'')
   \<and> (progress_value self = 0 \<and> \<not> truthy_list (top_predictions self) \<longrightarrow>
      predictions_view self = HTML)
   \<and> (v \<noteq> 0 \<longrightarrow>
      predictions_view (report_progress message v self) =
        Column [Markdown ''## Prediction'', Progress v 200, Str message] ''stretch_width'')"
  by (simp add: predictions_view_def report_progress_def)

theorem predictions_view_cases_witness:
  "predictions_view (stub_app None\<lparr>progress_value := 67, progress_message := ''Processing image ... ''\<rparr>) =
     Column [Markdown ''## Prediction'', Progress 67 200, Str ''Processing image ... '']
       ''stretch_width''
   \<and> predictions_view (stub_app None) =
       Column [Markdown ''## Prediction'', ParamMethod Main_prediction_view,
               Markdown ''## Alternative Predictions'', ParamMethod Predictions_chart_view]
         ''stretch_width''
   \<and> predictions_view (stub_app None\<lparr>top_predictions := None\<rparr>) = HTML
   \<and> predictions_view (stub_app None\<lparr>top_predictions := Some []\<rparr>) = HTML
   \<and> predictions_view (report_progress ''Prediction Started'' 1 (stub_app None)) =
       Column [Markdown ''## Prediction'', Progress 1 200, Str ''Prediction Started'']
         ''stretch_width''"
  using predictions_view_cases
      [of "stub_app None\<lparr>progress_value := 67, progress_message := ''Processing image ... ''\<rparr>" 1]
    predictions_view_cases [of "stub_app None" 1 "''Prediction Started''"]
    predictions_view_cases [of "stub_app None\<lparr>top_predictions := None\<rparr>" 1]
    predictions_view_cases [of "stub_app None\<lparr>top_predictions := Some []\<rparr>" 1]
  by (simp add: stub_app_def truthy_list_def)


subsection \<open>The predictions chart\<close>





















end
